theory Spec2Isabelle
  imports Complex_Main
begin

section \<open>Data model (types.ts)\<close>

text \<open>
  JavaScript numbers are modelled as real numbers: the development is about the
  arithmetic the program writes down, not about IEEE rounding, infinities or NaN.
  Where the source divides, the model divides; the theorems that depend on the value
  of a quotient state that its divisor is not zero.
\<close>

record vector3 =
  v3x :: real
  v3y :: real
  v3z :: real

record vector2 =
  v2x :: real
  v2y :: real

section \<open>Projection module (services/vectorMath.ts)\<close>

definition FOV :: real where
  "FOV = 500"

definition NEAR_CLIP :: real where
  "NEAR_CLIP = 1"

definition VIEW_DISTANCE :: real where
  "VIEW_DISTANCE = 5000"

definition CAMERA_POS :: vector3 where
  "CAMERA_POS = \<lparr>v3x = 0, v3y = 8, v3z = - 30\<rparr>"

definition CAMERA_PITCH :: real where
  "CAMERA_PITCH = 0.2"

text \<open>
  \<open>projectVector\<close>: the result \<open>null\<close> of the source is \<open>None\<close>. The last
  argument is the source's unused parameter \<open>_cameraZ\<close>.
\<close>

definition projectVector :: "vector3 \<Rightarrow> real \<Rightarrow> real \<Rightarrow> real \<Rightarrow> vector2 option" where
  "projectVector v width height cameraZ =
     (let rX = v3x v - v3x CAMERA_POS;
          rY = v3y v - v3y CAMERA_POS;
          rZ = v3z v - v3z CAMERA_POS;
          cs = cos CAMERA_PITCH;
          sn = sin CAMERA_PITCH;
          pitchY = rY * cs - rZ * sn;
          pitchZ = rY * sn + rZ * cs
      in if pitchZ \<le> NEAR_CLIP \<or> pitchZ > VIEW_DISTANCE then None
         else
           let scale = FOV / pitchZ;
               x = rX * scale + width / 2;
               y = - pitchY * scale + height / 2
           in Some \<lparr>v2x = x, v2y = y\<rparr>)"

definition unprojectVector :: "real \<Rightarrow> real \<Rightarrow> real \<Rightarrow> real \<Rightarrow> real \<Rightarrow> vector3" where
  "unprojectVector normX normY targetZ width height =
     (let rZ = targetZ - v3z CAMERA_POS;
          cs = cos CAMERA_PITCH;
          sn = sin CAMERA_PITCH;
          tn = tan CAMERA_PITCH;
          sy = normY * (height / 2);
          slopeY = - sy / FOV;
          pitchZ = (rZ * (sn * tn + cs)) / (1 - slopeY * tn);
          scale = FOV / pitchZ;
          sx = normX * (width / 2);
          rX = sx / scale;
          pitchY = slopeY * pitchZ;
          rY = pitchY * cs + pitchZ * sn
      in \<lparr>v3x = rX + v3x CAMERA_POS, v3y = rY + v3y CAMERA_POS, v3z = targetZ\<rparr>)"

definition getScaleFactor :: "real \<Rightarrow> real \<Rightarrow> real" where
  "getScaleFactor z cameraZ =
     (let rZ = z - v3z CAMERA_POS;
          pitchZ = (0 - v3y CAMERA_POS) * sin CAMERA_PITCH + rZ * cos CAMERA_PITCH
      in if pitchZ \<le> NEAR_CLIP then 0 else FOV / pitchZ)"

definition checkCollision :: "vector3 \<Rightarrow> real \<Rightarrow> vector3 \<Rightarrow> real \<Rightarrow> bool" where
  "checkCollision a rA b rB =
     (let dx = v3x a - v3x b;
          dy = v3y a - v3y b;
          dz = v3z a - v3z b;
          distSq = dx * dx + dy * dy + dz * dz;
          radSum = rA + rB
      in distSq < radSum * radSum)"

section \<open>Entities, particles and the engine's state (types.ts, GameEngine.tsx)\<close>

datatype entity_type =
  PLAYER | ENEMY_Interceptor | ENEMY_Turret | OBSTACLE_Pillar
  | PROJECTILE_Player | PROJECTILE_Enemy | DEBRIS

text \<open>
  An entity's \<open>id\<close> is a string. The engine writes two kinds: the literal
  \<open>'player'\<close>, and \<open>Math.random().toString()\<close> for everything it pushes into the
  store, which \<open>Number(ent.id)\<close> reads back as the same number. \<open>Num r\<close> stands for
  the decimal rendering of \<open>r\<close>. \<open>Number\<close> of a literal that is no number is NaN in
  the source, which the reals do not have: \<open>idNumber\<close> has no equation for it.
\<close>

datatype entity_id = Name string | Num real

fun idNumber :: "entity_id \<Rightarrow> real" where
  "idNumber (Num r) = r"

record entity =
  ident :: entity_id
  position :: vector3
  velocity :: vector3
  scale :: vector3
  etype :: entity_type
  active :: bool
  color :: string
  rotation :: real
  health :: real
  scoreValue :: real
  radius :: real

record particle =
  p_position :: vector3
  p_velocity :: vector3
  life :: real
  maxLife :: real
  p_color :: string

record missionData =
  title :: string
  briefing :: string
  themeColor :: string
  enemyDensity :: real
  speedModifier :: real

text \<open>The component's props; the three callbacks are the events below.\<close>

record props =
  mission :: missionData
  width :: real
  height :: real
  paused :: bool

text \<open>
  What the component hands to its host: a call of \<open>render\<close> and the calls of
  \<open>onScoreUpdate\<close>, \<open>onHealthUpdate\<close> and \<open>onGameOver\<close>, in the order made.
\<close>

datatype event = Render | ScoreUpdate real | HealthUpdate real | GameOver real

record input_state =
  in_x :: real
  in_y :: real
  in_active :: bool

text \<open>
  The environment: the values \<open>Math.random()\<close> and \<open>new Date().getTime()\<close> return,
  by the number of the call. The state counts the calls made so far.
\<close>

record env =
  rand :: "nat \<Rightarrow> real"
  wall :: "nat \<Rightarrow> real"

text \<open>
  The refs of the component. \<open>frameRequested\<close> stands for \<open>requestRef\<close>: whether a
  frame callback is scheduled. \<open>emitted\<close> is the log of events so far.
\<close>

record state =
  player :: entity
  entities :: "entity list"
  particles :: "particle list"
  score :: real
  lastReportedScore :: real
  lastReportedHealth :: real
  gameTime :: real
  keys :: "string \<Rightarrow> bool option"
  lastFireTime :: real
  input :: input_state
  reticle :: vector2
  lastTime :: real
  frameRequested :: bool
  randCalls :: nat
  clockCalls :: nat
  emitted :: "event list"

definition BASE_SCROLL_SPEED :: real where
  "BASE_SCROLL_SPEED = 2.5"

definition FIRE_RATE :: real where
  "FIRE_RATE = 100"

definition FLOOR_Y :: real where
  "FLOOR_Y = - 6"

definition SHIP_LAG :: real where
  "SHIP_LAG = 0.08"

definition RETICLE_LAG :: real where
  "RETICLE_LAG = 0.15"

definition AIM_DISTANCE :: real where
  "AIM_DISTANCE = 400"

definition SHIP_MARGIN :: real where
  "SHIP_MARGIN = 5"

definition initialPlayer :: entity where
  "initialPlayer =
     \<lparr>ident = Name ''player'',
      position = \<lparr>v3x = 0, v3y = 0, v3z = 0\<rparr>,
      velocity = \<lparr>v3x = 0, v3y = 0, v3z = 0\<rparr>,
      scale = \<lparr>v3x = 1, v3y = 1, v3z = 1\<rparr>,
      etype = PLAYER, active = True, color = ''#00ffff'', rotation = 0,
      health = 100, scoreValue = 0, radius = 3\<rparr>"

text \<open>The state at mount: the initial values of the refs, and the effect's first request.\<close>

definition initialState :: state where
  "initialState =
     \<lparr>player = initialPlayer, entities = [], particles = [], score = 0,
      lastReportedScore = 0, lastReportedHealth = 100, gameTime = 0,
      keys = (\<lambda>k. None), lastFireTime = 0,
      input = \<lparr>in_x = 0, in_y = 0, in_active = False\<rparr>,
      reticle = \<lparr>v2x = 0, v2y = 0\<rparr>, lastTime = 0, frameRequested = True,
      randCalls = 0, clockCalls = 0, emitted = []\<rparr>"

subsection \<open>Helpers of the source's JavaScript\<close>

text \<open>\<open>a % b\<close> on numbers: the remainder has the sign of the dividend.\<close>

definition js_mod :: "real \<Rightarrow> real \<Rightarrow> real" where
  "js_mod a b = a - b * of_int (if 0 \<le> a / b then \<lfloor>a / b\<rfloor> else \<lceil>a / b\<rceil>)"

text \<open>\<open>type.startsWith('ENEMY')\<close>\<close>

fun startsWithENEMY :: "entity_type \<Rightarrow> bool" where
  "startsWithENEMY ENEMY_Interceptor = True"
| "startsWithENEMY ENEMY_Turret = True"
| "startsWithENEMY _ = False"

text \<open>\<open>keysRef.current[k]\<close> as a condition: a missing key is \<open>undefined\<close>, which is falsy.\<close>

definition keyDown :: "state \<Rightarrow> string \<Rightarrow> bool" where
  "keyDown s k = (keys s k = Some True)"

text \<open>A mutation of the entity object at index \<open>i\<close> of the store.\<close>

definition modifyEntity :: "nat \<Rightarrow> (entity \<Rightarrow> entity) \<Rightarrow> state \<Rightarrow> state" where
  "modifyEntity i f s = s\<lparr>entities := (entities s)[i := f (entities s ! i)]\<rparr>"

subsection \<open>Spawning\<close>

definition thrusterParticle :: "env \<Rightarrow> vector3 \<Rightarrow> real \<Rightarrow> state \<Rightarrow> state" where
  "thrusterParticle e pos offset s =
     (let r1 = rand e (randCalls s);
          r2 = rand e (randCalls s + 1)
      in s\<lparr>particles := particles s @
             [\<lparr>p_position = \<lparr>v3x = v3x pos + offset, v3y = v3y pos, v3z = v3z pos - 2\<rparr>,
               p_velocity = \<lparr>v3x = (r1 - 0.5) * 0.2, v3y = (r2 - 0.5) * 0.2, v3z = - 2\<rparr>,
               life = 200, maxLife = 200, p_color = ''#00ffff''\<rparr>],
           randCalls := randCalls s + 2\<rparr>)"

definition spawnThrusterParticle :: "env \<Rightarrow> vector3 \<Rightarrow> real \<Rightarrow> state \<Rightarrow> state" where
  "spawnThrusterParticle e pos rot s = thrusterParticle e pos 1 (thrusterParticle e pos (- 1) s)"

definition spawnEnemy :: "env \<Rightarrow> string \<Rightarrow> state \<Rightarrow> state" where
  "spawnEnemy e col s =
     (let r0 = rand e (randCalls s);
          r1 = rand e (randCalls s + 1);
          r2 = rand e (randCalls s + 2)
      in s\<lparr>entities := entities s @
             [\<lparr>ident = Num r0,
               position = \<lparr>v3x = (r1 * 80) - 40, v3y = r2 * 20, v3z = 400\<rparr>,
               velocity = \<lparr>v3x = 0, v3y = 0, v3z = 0\<rparr>,
               scale = \<lparr>v3x = 2.5, v3y = 2.5, v3z = 2.5\<rparr>,
               etype = ENEMY_Interceptor, active = True, color = col, rotation = 0,
               health = 50, scoreValue = 100, radius = 4\<rparr>],
           randCalls := randCalls s + 3\<rparr>)"

definition newProjectile :: "real \<Rightarrow> vector3 \<Rightarrow> vector3 \<Rightarrow> bool \<Rightarrow> entity" where
  "newProjectile r startPos targetPos isPlayer =
     (let speed = (if isPlayer then 6.0 else 2.0);
          dx = v3x targetPos - v3x startPos;
          dy = v3y targetPos - v3y startPos;
          dz = v3z targetPos - v3z startPos;
          dist = sqrt (dx * dx + dy * dy + dz * dz);
          vel = \<lparr>v3x = (dx / dist) * speed, v3y = (dy / dist) * speed, v3z = (dz / dist) * speed\<rparr>
      in \<lparr>ident = Num r,
          position = startPos\<lparr>v3z := v3z startPos + (if isPlayer then 5 else - 5)\<rparr>,
          velocity = vel,
          scale = \<lparr>v3x = 1, v3y = 1, v3z = 1\<rparr>,
          etype = (if isPlayer then PROJECTILE_Player else PROJECTILE_Enemy),
          active = True, color = (if isPlayer then ''#00ffaa'' else ''#ff5555''),
          rotation = 0, health = 1, scoreValue = 0, radius = 2\<rparr>)"

definition spawnProjectile :: "env \<Rightarrow> vector3 \<Rightarrow> vector3 \<Rightarrow> bool \<Rightarrow> state \<Rightarrow> state" where
  "spawnProjectile e startPos targetPos isPlayer s =
     s\<lparr>entities := entities s @ [newProjectile (rand e (randCalls s)) startPos targetPos isPlayer],
       randCalls := randCalls s + 1\<rparr>"

definition explosionParticle :: "env \<Rightarrow> vector3 \<Rightarrow> string \<Rightarrow> state \<Rightarrow> state" where
  "explosionParticle e pos col s =
     (let r1 = rand e (randCalls s);
          r2 = rand e (randCalls s + 1);
          r3 = rand e (randCalls s + 2)
      in s\<lparr>particles := particles s @
             [\<lparr>p_position = pos,
               p_velocity = \<lparr>v3x = (r1 - 0.5) * 3, v3y = (r2 - 0.5) * 3, v3z = (r3 - 0.5) * 3\<rparr>,
               life = 500, maxLife = 500, p_color = col\<rparr>],
           randCalls := randCalls s + 3\<rparr>)"

text \<open>The loop \<open>for (let i = 0; i < 15; i++)\<close>, by the number of rounds left.\<close>

fun explosionLoop :: "env \<Rightarrow> vector3 \<Rightarrow> string \<Rightarrow> nat \<Rightarrow> state \<Rightarrow> state" where
  "explosionLoop e pos col 0 s = s"
| "explosionLoop e pos col (Suc n) s = explosionLoop e pos col n (explosionParticle e pos col s)"

definition spawnExplosion :: "env \<Rightarrow> vector3 \<Rightarrow> string \<Rightarrow> state \<Rightarrow> state" where
  "spawnExplosion e pos col s = explosionLoop e pos col 15 s"

subsection \<open>The simulation step \<open>update\<close>, stage by stage\<close>

text \<open>1. Reticle physics.\<close>

definition reticleStage :: "state \<Rightarrow> state" where
  "reticleStage s =
     (let rx = v2x (reticle s) + (in_x (input s) - v2x (reticle s)) * RETICLE_LAG;
          ry = v2y (reticle s) + (in_y (input s) - v2y (reticle s)) * RETICLE_LAG
      in s\<lparr>reticle := \<lparr>v2x = rx, v2y = ry\<rparr>\<rparr>)"

text \<open>2. Ship movement: the bounds of the screen at the player's depth, the clamp, the lerp
  and the bank angle.\<close>

definition shipStage :: "props \<Rightarrow> state \<Rightarrow> state" where
  "shipStage pr s =
     (let rightEdge = v3x (unprojectVector 1 0 0 (width pr) (height pr));
          xLimit = max 10 (rightEdge - SHIP_MARGIN);
          topEdge = v3y (unprojectVector 0 (- 1) 0 (width pr) (height pr));
          yMax = topEdge - 3;
          moveTargetPos = unprojectVector (in_x (input s)) (in_y (input s)) 0 (width pr) (height pr);
          targetX = max (- xLimit) (min xLimit (v3x moveTargetPos));
          targetY = max (FLOOR_Y + 1) (min yMax (v3y moveTargetPos));
          lerpFactor = SHIP_LAG;
          pos = position (player s);
          px = v3x pos + (targetX - v3x pos) * lerpFactor;
          py = v3y pos + (targetY - v3y pos) * lerpFactor
      in s\<lparr>player := (player s)\<lparr>position := pos\<lparr>v3x := px, v3y := py\<rparr>,
                                  rotation := (px - targetX) * 0.06\<rparr>\<rparr>)"

text \<open>Thrusters.\<close>

definition thrusterStage :: "env \<Rightarrow> state \<Rightarrow> state" where
  "thrusterStage e s =
     (if js_mod (gameTime s) 30 < 16
      then spawnThrusterParticle e (position (player s)) (rotation (player s)) s
      else s)"

definition scrollSpeedOf :: "props \<Rightarrow> real \<Rightarrow> real" where
  "scrollSpeedOf pr dt = BASE_SCROLL_SPEED * speedModifier (mission pr) * (dt / 16)"

text \<open>Spawning: \<open>Math.random()\<close> is called only when the grace period is over.\<close>

definition spawnStage :: "env \<Rightarrow> props \<Rightarrow> state \<Rightarrow> state" where
  "spawnStage e pr s =
     (if gameTime s > 1500
      then
        let r = rand e (randCalls s);
            s1 = s\<lparr>randCalls := randCalls s + 1\<rparr>
        in if r < 0.02 * enemyDensity (mission pr)
           then spawnEnemy e (themeColor (mission pr)) s1
           else s1
      else s)"

text \<open>
  Firing. \<open>isFiring\<close> is \<open>keys['Space'] || keys['Enter'] || true\<close>. The clock is read
  once in the condition and once more to stamp the shot.
\<close>

definition fireStage :: "env \<Rightarrow> props \<Rightarrow> state \<Rightarrow> state" where
  "fireStage e pr s =
     (let isFiring = (keyDown s ''Space'' \<or> keyDown s ''Enter'' \<or> True)
      in if isFiring
         then
           let now = wall e (clockCalls s);
               s1 = s\<lparr>clockCalls := clockCalls s + 1\<rparr>
           in if now - lastFireTime s1 > FIRE_RATE
              then
                let aimPos = unprojectVector (in_x (input s1)) (in_y (input s1)) AIM_DISTANCE
                               (width pr) (height pr);
                    s2 = spawnProjectile e (position (player s1)) aimPos True s1
                in s2\<lparr>lastFireTime := wall e (clockCalls s2), clockCalls := clockCalls s2 + 1\<rparr>
              else s1
         else s)"

text \<open>
  The body of \<open>entitiesRef.current.forEach(ent => ...)\<close> for the entity at index \<open>i\<close>,
  in four parts: motion, the bounds of the world, an enemy's collisions, an enemy
  projectile's collision.
\<close>

definition moveEntity :: "env \<Rightarrow> real \<Rightarrow> real \<Rightarrow> nat \<Rightarrow> state \<Rightarrow> state" where
  "moveEntity e dt scrollSpeed i s =
     (let ent = entities s ! i
      in if etype ent = PROJECTILE_Player
         then modifyEntity i (\<lambda>a. a\<lparr>position :=
                \<lparr>v3x = v3x (position a) + v3x (velocity a) * (dt / 16),
                 v3y = v3y (position a) + v3y (velocity a) * (dt / 16),
                 v3z = v3z (position a) + v3z (velocity a) * (dt / 16)\<rparr>\<rparr>) s
         else if etype ent = PROJECTILE_Enemy
         then modifyEntity i (\<lambda>a. a\<lparr>position :=
                (position a)\<lparr>v3z := v3z (position a) - 2.0 * (dt / 16)\<rparr>\<rparr>) s
         else if startsWithENEMY (etype ent)
         then
           let s1 = modifyEntity i (\<lambda>a. a\<lparr>position :=
                      (position a)\<lparr>v3z := v3z (position a) - scrollSpeed\<rparr>\<rparr>) s;
               s2 = modifyEntity i (\<lambda>a. a\<lparr>position :=
                      (position a)\<lparr>v3x := v3x (position a)
                         + sin (v3z (position a) * 0.02 + idNumber (ident a)) * 0.3\<rparr>\<rparr>) s1;
               r = rand e (randCalls s2);
               s3 = s2\<lparr>randCalls := randCalls s2 + 1\<rparr>;
               pos = position (entities s3 ! i)
           in if r < 0.015 \<and> v3z pos > 50 \<and> v3z pos < 300
              then spawnProjectile e pos (position (player s3)) False s3
              else s3
         else s)"

definition cullEntity :: "nat \<Rightarrow> state \<Rightarrow> state" where
  "cullEntity i s =
     (let pos = position (entities s ! i)
      in if v3z pos < - 40 \<or> v3z pos > 500
         then modifyEntity i (\<lambda>a. a\<lparr>active := False\<rparr>) s
         else s)"

text \<open>The body of the inner \<open>forEach(proj => ...)\<close>: enemy \<open>i\<close> against projectile \<open>j\<close>.\<close>

definition hitByProjectile :: "env \<Rightarrow> nat \<Rightarrow> nat \<Rightarrow> state \<Rightarrow> state" where
  "hitByProjectile e i j s =
     (let ent = entities s ! i;
          proj = entities s ! j
      in if checkCollision (position ent) (radius ent) (position proj) (radius proj)
         then
           let s1 = modifyEntity i (\<lambda>a. a\<lparr>health := health a - 50\<rparr>) s;
               s2 = modifyEntity j (\<lambda>a. a\<lparr>active := False\<rparr>) s1;
               s3 = spawnExplosion e (position (entities s2 ! i)) (color (entities s2 ! i)) s2
           in if health (entities s3 ! i) \<le> 0
              then (modifyEntity i (\<lambda>a. a\<lparr>active := False\<rparr>) s3)
                     \<lparr>score := score s3 + scoreValue (entities s3 ! i)\<rparr>
              else s3
         else s)"

text \<open>
  \<open>entitiesRef.current.filter(p => p.type === 'PROJECTILE_Player' && p.active)\<close>: the
  indices of the objects the filter keeps, taken once, before the inner loop runs.
\<close>

definition activePlayerProjectiles :: "state \<Rightarrow> nat list" where
  "activePlayerProjectiles s =
     filter (\<lambda>j. etype (entities s ! j) = PROJECTILE_Player \<and> active (entities s ! j))
       [0 ..< length (entities s)]"

definition collideEnemy :: "env \<Rightarrow> nat \<Rightarrow> state \<Rightarrow> state" where
  "collideEnemy e i s =
     (let ent = entities s ! i
      in if startsWithENEMY (etype ent) \<and> active ent
         then
           let s1 = fold (hitByProjectile e i) (activePlayerProjectiles s) s;
               pl = player s1;
               ent1 = entities s1 ! i
           in if checkCollision (position pl) (radius pl) (position ent1) (radius ent1)
              then
                let s2 = modifyEntity i (\<lambda>a. a\<lparr>active := False\<rparr>) s1;
                    s3 = s2\<lparr>player := (player s2)\<lparr>health := health (player s2) - 20\<rparr>\<rparr>
                in spawnExplosion e (position (player s3)) ''#ff0000'' s3
              else s1
         else s)"

definition collideEnemyProjectile :: "env \<Rightarrow> nat \<Rightarrow> state \<Rightarrow> state" where
  "collideEnemyProjectile e i s =
     (let ent = entities s ! i;
          pl = player s
      in if etype ent = PROJECTILE_Enemy \<and> active ent
            \<and> checkCollision (position pl) (radius pl) (position ent) (radius ent)
         then
           let s1 = modifyEntity i (\<lambda>a. a\<lparr>active := False\<rparr>) s;
               s2 = s1\<lparr>player := (player s1)\<lparr>health := health (player s1) - 10\<rparr>\<rparr>
           in spawnExplosion e (position (player s2)) ''#ffaa00'' s2
         else s)"

definition updateEntity :: "env \<Rightarrow> real \<Rightarrow> real \<Rightarrow> nat \<Rightarrow> state \<Rightarrow> state" where
  "updateEntity e dt scrollSpeed i s =
     (if \<not> active (entities s ! i) then s
      else collideEnemyProjectile e i
             (collideEnemy e i (cullEntity i (moveEntity e dt scrollSpeed i s))))"

text \<open>
  \<open>forEach\<close> visits the indices below the length the array has when the loop starts;
  what a visit pushes is not visited in this pass.
\<close>

definition entityPass :: "env \<Rightarrow> real \<Rightarrow> real \<Rightarrow> state \<Rightarrow> state" where
  "entityPass e dt scrollSpeed s =
     fold (updateEntity e dt scrollSpeed) [0 ..< length (entities s)] s"

definition compactStage :: "state \<Rightarrow> state" where
  "compactStage s = s\<lparr>entities := filter active (entities s)\<rparr>"

definition particleStage :: "real \<Rightarrow> state \<Rightarrow> state" where
  "particleStage dt s =
     (let moved = map (\<lambda>p. p\<lparr>p_position :=
                    \<lparr>v3x = v3x (p_position p) + v3x (p_velocity p) * (dt / 16),
                     v3y = v3y (p_position p) + v3y (p_velocity p) * (dt / 16),
                     v3z = v3z (p_position p) + v3z (p_velocity p) * (dt / 16)\<rparr>,
                    life := life p - dt\<rparr>) (particles s)
      in s\<lparr>particles := filter (\<lambda>p. life p > 0) moved\<rparr>)"

definition update :: "env \<Rightarrow> props \<Rightarrow> real \<Rightarrow> state \<Rightarrow> state" where
  "update e pr dt s =
     (let s1 = reticleStage s;
          s2 = shipStage pr s1;
          s3 = thrusterStage e s2;
          scrollSpeed = scrollSpeedOf pr dt;
          s4 = spawnStage e pr s3;
          s5 = fireStage e pr s4;
          s6 = entityPass e dt scrollSpeed s5;
          s7 = compactStage s6
      in particleStage dt s7)"

subsection \<open>The frame callback \<open>animate\<close> and the host\<close>

text \<open>\<open>render\<close> draws on the canvas and changes no ref; the model records that it ran.\<close>

definition render :: "state \<Rightarrow> state" where
  "render s = s\<lparr>emitted := emitted s @ [Render]\<rparr>"

definition ceilHealth :: "state \<Rightarrow> real" where
  "ceilHealth s = of_int \<lceil>health (player s)\<rceil>"

text \<open>
  The reports at the end of a frame that is not paused: the score and the health when
  they differ from the last reported ones, then either the next frame or the game over.
\<close>

definition reportStage :: "state \<Rightarrow> state" where
  "reportStage s4 =
     (let s5 = (if score s4 \<noteq> lastReportedScore s4
                then s4\<lparr>emitted := emitted s4 @ [ScoreUpdate (score s4)],
                       lastReportedScore := score s4\<rparr>
                else s4);
          s6 = (if ceilHealth s5 \<noteq> lastReportedHealth s5
                then s5\<lparr>lastReportedHealth := ceilHealth s5,
                       emitted := emitted s5 @ [HealthUpdate (ceilHealth s5)]\<rparr>
                else s5)
      in if health (player s6) > 0
         then s6\<lparr>frameRequested := True\<rparr>
         else s6\<lparr>emitted := emitted s6 @ [GameOver (score s6)]\<rparr>)"

text \<open>The frame callback. Running it uses up the request that scheduled it.\<close>

definition animate :: "env \<Rightarrow> props \<Rightarrow> real \<Rightarrow> state \<Rightarrow> state" where
  "animate e pr time s0 =
     (let s = s0\<lparr>frameRequested := False\<rparr>;
          s1 = (if lastTime s = 0 then s\<lparr>lastTime := time\<rparr> else s);
          deltaTime = time - lastTime s1;
          s2 = s1\<lparr>lastTime := time\<rparr>;
          s3 = (if \<not> paused pr
                then update e pr deltaTime (s2\<lparr>gameTime := gameTime s2 + deltaTime\<rparr>)
                else s2);
          s4 = render s3
      in if \<not> paused pr
         then reportStage s4
         else s4\<lparr>frameRequested := True\<rparr>)"

text \<open>
  What the host does to a mounted component whose props stay as they are: it runs the
  frame callback when one is scheduled, and it delivers pointer and key events.
\<close>

datatype host_event = Frame real | PointerMove real real | KeyDown string | KeyUp string

definition handleMove :: "props \<Rightarrow> real \<Rightarrow> real \<Rightarrow> state \<Rightarrow> state" where
  "handleMove pr x y s =
     (if paused pr then s
      else
        let normX = (x - width pr / 2) / (width pr / 2);
            normY = (y - height pr / 2) / (height pr / 2)
        in s\<lparr>input := \<lparr>in_x = normX, in_y = normY, in_active = True\<rparr>\<rparr>)"

fun hostStep :: "env \<Rightarrow> props \<Rightarrow> host_event \<Rightarrow> state \<Rightarrow> state" where
  "hostStep e pr (Frame t) s = (if frameRequested s then animate e pr t s else s)"
| "hostStep e pr (PointerMove x y) s = handleMove pr x y s"
| "hostStep e pr (KeyDown k) s = s\<lparr>keys := (keys s)(k \<mapsto> True)\<rparr>"
| "hostStep e pr (KeyUp k) s = s\<lparr>keys := (keys s)(k \<mapsto> False)\<rparr>"

definition run :: "env \<Rightarrow> props \<Rightarrow> host_event list \<Rightarrow> state \<Rightarrow> state" where
  "run e pr evs s = fold (hostStep e pr) evs s"

subsection \<open>Views of the state used in the statements\<close>

text \<open>
  The refs the simulation step never writes: the event log, the schedule, the last
  reported values, the two clocks of \<open>animate\<close> and the input.
\<close>

definition shell ::
  "state \<Rightarrow> event list \<times> bool \<times> real \<times> real \<times> real \<times> real \<times> input_state \<times> (string \<Rightarrow> bool option)" where
  "shell s = (emitted s, frameRequested s, lastReportedScore s, lastReportedHealth s,
              lastTime s, gameTime s, input s, keys s)"

text \<open>The player apart from its health, which is all the entity pass may change of it.\<close>

definition apartFromHealth :: "entity \<Rightarrow> entity" where
  "apartFromHealth a = a\<lparr>health := 0\<rparr>"

text \<open>The number of frame callbacks that ran \<open>render\<close>.\<close>

definition renders :: "state \<Rightarrow> nat" where
  "renders s = length (filter (\<lambda>ev. ev = Render) (emitted s))"

fun isGameOver :: "event \<Rightarrow> bool" where
  "isGameOver (GameOver v) = True"
| "isGameOver _ = False"

fun isHealthUpdate :: "event \<Rightarrow> bool" where
  "isHealthUpdate (HealthUpdate v) = True"
| "isHealthUpdate _ = False"

text \<open>An entity apart from the two fields a collision writes.\<close>

definition bodyOf :: "entity \<Rightarrow> entity" where
  "bodyOf a = a\<lparr>health := 0, active := False\<rparr>"

text \<open>Every entity in the store awards a score that is not negative.\<close>

definition scoresNonneg :: "state \<Rightarrow> bool" where
  "scoresNonneg s = list_all (\<lambda>a. 0 \<le> scoreValue a) (entities s)"

text \<open>The state of \<open>update\<close> when its \<open>forEach\<close> starts.\<close>

definition prePass :: "env \<Rightarrow> props \<Rightarrow> state \<Rightarrow> state" where
  "prePass e pr s = fireStage e pr (spawnStage e pr (thrusterStage e (shipStage pr (reticleStage s))))"

text \<open>Whether enemy \<open>i\<close> and entity \<open>j\<close> of the store overlap, as the inner loop tests it.\<close>

definition overlaps :: "state \<Rightarrow> nat \<Rightarrow> nat \<Rightarrow> bool" where
  "overlaps s i j =
     checkCollision (position (entities s ! i)) (radius (entities s ! i))
       (position (entities s ! j)) (radius (entities s ! j))"

text \<open>
  The elapsed time a frame callback computes, and the state its simulation step leaves
  when the component is not paused.
\<close>

definition deltaTimeOf :: "real \<Rightarrow> state \<Rightarrow> real" where
  "deltaTimeOf time s = time - (if lastTime s = 0 then time else lastTime s)"

definition stepped :: "env \<Rightarrow> props \<Rightarrow> real \<Rightarrow> state \<Rightarrow> state" where
  "stepped e pr time s =
     update e pr (deltaTimeOf time s)
       (s\<lparr>frameRequested := False, lastTime := time,
          gameTime := gameTime s + deltaTimeOf time s\<rparr>)"

text \<open>The events a step of the host added to the log.\<close>

definition newEvents :: "state \<Rightarrow> state \<Rightarrow> event list" where
  "newEvents s s' = drop (length (emitted s)) (emitted s')"

text \<open>
  What stands still once no frame is scheduled: everything but the input and the keys.
\<close>

definition world ::
  "state \<Rightarrow> entity \<times> entity list \<times> particle list \<times> real \<times> real \<times> event list \<times> bool" where
  "world s = (player s, entities s, particles s, score s, gameTime s, emitted s, frameRequested s)"

text \<open>A health report is an integer and at most 100.\<close>

fun healthReportOk :: "event \<Rightarrow> bool" where
  "healthReportOk (HealthUpdate v) = (v \<le> 100 \<and> of_int \<lceil>v\<rceil> = v)"
| "healthReportOk _ = True"

text \<open>
  The state in which a visit tests its collisions: the visited entity has moved and has
  been checked against the bounds of the world.
\<close>

definition afterMove :: "env \<Rightarrow> real \<Rightarrow> real \<Rightarrow> nat \<Rightarrow> state \<Rightarrow> state" where
  "afterMove e dt scrollSpeed i s = cullEntity i (moveEntity e dt scrollSpeed i s)"

text \<open>The active player projectiles that overlap enemy \<open>i\<close>.\<close>

definition hitters :: "state \<Rightarrow> nat \<Rightarrow> nat list" where
  "hitters s i = filter (overlaps s i) (activePlayerProjectiles s)"

subsection \<open>Concrete inputs\<close>

text \<open>
  An environment whose random numbers are all 1/2 and whose clock stands at 5000 ms, and
  the props of the fallback mission on an 800 by 600 surface, not paused.
\<close>

definition exampleEnv :: env where
  "exampleEnv = \<lparr>rand = (\<lambda>n. 1 / 2), wall = (\<lambda>n. 5000)\<rparr>"

definition exampleProps :: props where
  "exampleProps =
     \<lparr>mission = \<lparr>title = ''SECTOR 1-ALPHA'', briefing = ''ENGAGE AT WILL.'',
                  themeColor = ''#00ffff'', enemyDensity = 0.5, speedModifier = 1.0\<rparr>,
      width = 800, height = 600, paused = False\<rparr>"

text \<open>An enemy projectile two units ahead of the ship's plane.\<close>

definition enemyShot :: entity where
  "enemyShot =
     \<lparr>ident = Num (1 / 2),
      position = \<lparr>v3x = 0, v3y = 0, v3z = 2\<rparr>,
      velocity = \<lparr>v3x = 0, v3y = 0, v3z = - 2\<rparr>,
      scale = \<lparr>v3x = 1, v3y = 1, v3z = 1\<rparr>,
      etype = PROJECTILE_Enemy, active = True, color = ''#ff5555'',
      rotation = 0, health = 1, scoreValue = 0, radius = 2\<rparr>"

text \<open>
  The ship at the origin with 10 health left and two enemy projectiles about to reach
  it; the last frame ran at 1000 ms and the last shot was fired 50 ms ago.
\<close>

definition lastStand :: state where
  "lastStand =
     initialState\<lparr>player := initialPlayer\<lparr>health := 10\<rparr>,
                  entities := [enemyShot, enemyShot],
                  lastReportedHealth := 10,
                  lastTime := 1000, gameTime := 1000, lastFireTime := 4950\<rparr>"

text \<open>An enemy on the ship, and a player projectile that overlaps it only before it moves.\<close>

definition raider :: entity where
  "raider =
     \<lparr>ident = Num 0,
      position = \<lparr>v3x = 0, v3y = 0, v3z = 2.5\<rparr>,
      velocity = \<lparr>v3x = 0, v3y = 0, v3z = 0\<rparr>,
      scale = \<lparr>v3x = 2.5, v3y = 2.5, v3z = 2.5\<rparr>,
      etype = ENEMY_Interceptor, active = True, color = ''#00ffff'',
      rotation = 0, health = 50, scoreValue = 100, radius = 4\<rparr>"

definition bolt :: entity where
  "bolt =
     \<lparr>ident = Num (1 / 2),
      position = \<lparr>v3x = 0, v3y = 0, v3z = 5.5\<rparr>,
      velocity = \<lparr>v3x = 0, v3y = 0, v3z = 6\<rparr>,
      scale = \<lparr>v3x = 1, v3y = 1, v3z = 1\<rparr>,
      etype = PROJECTILE_Player, active = True, color = ''#00ffaa'',
      rotation = 0, health = 1, scoreValue = 0, radius = 2\<rparr>"

definition skirmish :: state where
  "skirmish = initialState\<lparr>entities := [bolt, raider], lastTime := 1000, gameTime := 1000\<rparr>"

definition skirmishSwapped :: state where
  "skirmishSwapped = initialState\<lparr>entities := [raider, bolt], lastTime := 1000, gameTime := 1000\<rparr>"

text \<open>The state at mount, but with the last shot fired exactly 100 ms before the clock's 5000.\<close>

definition reloading :: state where
  "reloading = initialState\<lparr>lastFireTime := 4900\<rparr>"

section \<open>Properties of the projection module\<close>


lemma cos_pitch_pos: "0 < cos CAMERA_PITCH"
  unfolding CAMERA_PITCH_def using pi_ge_two by (intro cos_gt_zero) simp_all

lemma cos_pitch_lb: "1/2 < cos CAMERA_PITCH"
proof -
  have "cos (pi / 3) < cos (1/5 :: real)"
    using pi_ge_two by (intro cos_monotone_0_pi) simp_all
  then show ?thesis by (simp add: cos_60 CAMERA_PITCH_def)
qed

lemma sin_pitch_pos: "0 < sin CAMERA_PITCH"
  unfolding CAMERA_PITCH_def by (intro sin_gt_zero_02) simp_all

lemma sin_pitch_ub: "sin CAMERA_PITCH \<le> 1/5"
  unfolding CAMERA_PITCH_def using sin_x_le_x [of "1/5"] by simp

lemma tan_pitch_bounds: "0 < tan CAMERA_PITCH \<and> tan CAMERA_PITCH < 2/5"
proof -
  have "5 * sin CAMERA_PITCH < 2 * cos CAMERA_PITCH"
    using sin_pitch_ub cos_pitch_lb by linarith
  then have "sin CAMERA_PITCH / cos CAMERA_PITCH < 2 / 5"
    using cos_pitch_pos by (simp add: field_simps)
  then show ?thesis
    using sin_pitch_pos cos_pitch_pos by (simp add: tan_def)
qed

text \<open>The algebra of the round trip, with the trigonometric values abstracted.\<close>

lemma round_trip_algebra:
  fixes c s k rZ :: real
  assumes c: "c \<noteq> 0" and sc: "s * s + c * c = 1" and d: "1 - k * (s / c) \<noteq> 0"
  defines "P \<equiv> (rZ * (s * (s / c) + c)) / (1 - k * (s / c))"
  shows "(k * P * c + P * s) * s + rZ * c = P"
    and "(k * P * c + P * s) * c - rZ * s = k * P"
    and "P = (rZ / c) / (1 - k * (s / c))"
proof -
  have e: "s * (s / c) + c = 1 / c"
    using c sc by (simp add: field_simps)
  show "P = (rZ / c) / (1 - k * (s / c))"
    unfolding P_def e by simp
  have "P * (1 - k * (s / c)) = rZ * (1 / c)"
    unfolding P_def using d e by simp
  then have "P * (c - k * s) = rZ"
    using c by (simp add: field_simps)
  then have rz: "rZ = P * (c - k * s)" by simp
  have "(k * P * c + P * s) * s + rZ * c = P * (s * s + c * c)"
    unfolding rz by (simp add: algebra_simps)
  then show "(k * P * c + P * s) * s + rZ * c = P" using sc by simp
  have "(k * P * c + P * s) * c - rZ * s = k * P * (s * s + c * c)"
    unfolding rz by (simp add: algebra_simps)
  then show "(k * P * c + P * s) * c - rZ * s = k * P" using sc by simp
qed

text \<open>
  The point \<open>unprojectVector\<close> returns, in the camera's frame: its depth after pitch is
  the \<open>pitchZ\<close> the function solved for, and its height after pitch is \<open>slopeY * pitchZ\<close>.
\<close>

lemma unproject_camera_frame:
  fixes normX normY z W H :: real
  defines "p \<equiv> unprojectVector normX normY z W H"
  defines "k \<equiv> - (normY * (H / 2)) / 500"
  defines "P \<equiv> ((z + 30) / cos CAMERA_PITCH) / (1 - k * tan CAMERA_PITCH)"
  assumes nondeg: "1 - k * tan CAMERA_PITCH \<noteq> 0"
  shows "(v3y p - 8) * sin CAMERA_PITCH + (v3z p + 30) * cos CAMERA_PITCH = P"
    and "(v3y p - 8) * cos CAMERA_PITCH - (v3z p + 30) * sin CAMERA_PITCH = k * P"
    and "v3x p = (normX * (W / 2)) / (500 / P)"
proof -
  define c where "c = cos CAMERA_PITCH"
  define s where "s = sin CAMERA_PITCH"
  define Q where "Q = ((z + 30) * (s * (s / c) + c)) / (1 - k * (s / c))"
  have c0: "c \<noteq> 0" using cos_pitch_pos by (simp add: c_def)
  have sc: "s * s + c * c = 1"
    using sin_cos_squared_add [of CAMERA_PITCH] by (simp add: power2_eq_square c_def s_def)
  have d: "1 - k * (s / c) \<noteq> 0"
    using nondeg by (simp add: tan_def c_def s_def)
  note rt = round_trip_algebra [OF c0 sc d, of "z + 30", folded Q_def]
  have QP: "Q = P" using rt(3) by (simp add: P_def tan_def c_def s_def)
  have py: "v3y p = (k * Q * c + Q * s) + 8"
    by (simp add: p_def unprojectVector_def Let_def FOV_def CAMERA_POS_def tan_def
        Q_def c_def s_def k_def)
  have pz: "v3z p = z"
    by (simp add: p_def unprojectVector_def Let_def)
  show "(v3y p - 8) * sin CAMERA_PITCH + (v3z p + 30) * cos CAMERA_PITCH = P"
    using rt(1) by (simp add: py pz QP c_def s_def)
  show "(v3y p - 8) * cos CAMERA_PITCH - (v3z p + 30) * sin CAMERA_PITCH = k * P"
    using rt(2) by (simp add: py pz QP c_def s_def)
  have "v3x p = (normX * (W / 2)) / (500 / Q)"
    by (simp add: p_def unprojectVector_def Let_def FOV_def CAMERA_POS_def tan_def
        Q_def c_def s_def k_def)
  then show "v3x p = (normX * (W / 2)) / (500 / P)" by (simp add: QP)
qed

text \<open>
  Claim C1 (projection/unprojection round trip). For every normalized screen offset
  \<open>(normX, normY)\<close>, world depth \<open>z\<close> and surface \<open>W\<close>, \<open>H\<close>: when the inverse is not
  degenerate (\<open>1 - slopeY * tan 0.2\<close> is not zero) and the depth after pitch of the
  unprojected point is above the near clip 1 and at most 5000, projecting the unprojected
  point gives exactly the screen point \<open>(normX * W / 2 + W / 2, normY * H / 2 + H / 2)\<close>,
  over the reals.
\<close>
theorem C1_round_trip:
  fixes normX normY z W H cz :: real
  defines "p \<equiv> unprojectVector normX normY z W H"
  defines "slopeY \<equiv> - (normY * (H / 2)) / 500"
  defines "depth \<equiv> (v3y p - 8) * sin 0.2 + (v3z p + 30) * cos 0.2"
  assumes nondeg: "1 - slopeY * tan 0.2 \<noteq> 0"
      and near: "1 < depth" and far: "depth \<le> 5000"
  shows "projectVector p W H cz =
           Some \<lparr>v2x = normX * W / 2 + W / 2, v2y = normY * H / 2 + H / 2\<rparr>"
proof -
  define P where "P = ((z + 30) / cos CAMERA_PITCH) / (1 - slopeY * tan CAMERA_PITCH)"
  have nd: "1 - slopeY * tan CAMERA_PITCH \<noteq> 0"
    using nondeg by (simp add: CAMERA_PITCH_def)
  note cf = unproject_camera_frame [where normX = normX and normY = normY and z = z
      and W = W and H = H, folded p_def slopeY_def, OF nd, folded P_def]
  have "depth = P"
    using cf(1) by (simp add: depth_def CAMERA_PITCH_def)
  then have P1: "1 < P" and P2: "P \<le> 5000" using near far by simp_all
  have "projectVector p W H cz =
      Some \<lparr>v2x = v3x p * (500 / P) + W / 2, v2y = - (slopeY * P) * (500 / P) + H / 2\<rparr>"
    using P1 P2 cf(1,2)
    by (simp add: projectVector_def Let_def FOV_def NEAR_CLIP_def VIEW_DISTANCE_def
        CAMERA_POS_def)
  moreover have "v3x p * (500 / P) = normX * W / 2"
    using P1 by (simp add: cf(3))
  moreover have "- (slopeY * P) * (500 / P) = normY * H / 2"
    using P1 by (simp add: slopeY_def)
  ultimately show ?thesis by simp
qed

theorem C1_round_trip_witness:
  "projectVector (unprojectVector (1/2) (- 1/2) 100 800 600) 800 600 0
     = Some \<lparr>v2x = 600, v2y = 150\<rparr>"
proof -
  define t where "t = tan CAMERA_PITCH"
  define c where "c = cos CAMERA_PITCH"
  have t: "0 < t" "t < 2/5" using tan_pitch_bounds by (simp_all add: t_def)
  have c: "1/2 < c" "c \<le> 1" using cos_pitch_lb by (simp_all add: c_def)
  define D where "D = 1 - (3/10) * t"
  have D: "22/25 < D" "D < 1" using t by (simp_all add: D_def)
  have nd: "1 - (- (- 1/2 * (600 / 2)) / 500) * tan CAMERA_PITCH \<noteq> 0"
    using D by (simp add: D_def t_def)
  note cf = unproject_camera_frame [where normX = "1/2" and normY = "- 1/2" and z = 100
      and W = 800 and H = 600, OF nd]
  define P where "P = (130 / c) / D"
  have Pdef: "((100 + 30) / cos CAMERA_PITCH) / (1 - (- (- 1/2 * (600 / 2)) / 500) * tan CAMERA_PITCH) = P"
    by (simp add: P_def D_def c_def t_def)
  have cD1: "c * D < 1 * 1"
    using c D by (intro mult_le_less_imp_less) simp_all
  have "(1/2) * (22/25) < c * D"
    using c D by (intro mult_strict_mono) simp_all
  then have cD0: "11/25 < c * D" by simp
  have PcD: "P = 130 / (c * D)" by (simp add: P_def)
  have P1: "1 < P"
    unfolding PcD using cD0 cD1 by (simp add: field_simps)
  have P2: "P \<le> 5000"
    unfolding PcD using cD0 cD1 by (simp add: field_simps)
  have dp: "(v3y (unprojectVector (1/2) (- 1/2) 100 800 600) - 8) * sin 0.2
        + (v3z (unprojectVector (1/2) (- 1/2) 100 800 600) + 30) * cos 0.2 = P"
    using cf(1) unfolding Pdef by (simp add: CAMERA_PITCH_def)
  have nd': "1 - (- (- 1/2 * (600 / 2)) / 500) * tan (0.2 :: real) \<noteq> 0"
    using nd by (simp add: CAMERA_PITCH_def)
  show ?thesis
    using C1_round_trip [where normX = "1/2" and normY = "- 1/2" and z = 100
      and W = 800 and H = 600 and cz = 0, OF nd'] P1 P2 unfolding dp by simp
qed

text \<open>
  Claim C4 (collision predicate boundary). \<open>checkCollision\<close> holds exactly when the
  squared distance of the centers is strictly below the squared sum of the radii. A tie
  does not collide; two unit spheres whose centers are 2 apart do not collide, and they do
  when the centers are 1.999 apart.
\<close>

theorem C4_collision_boundary:
  fixes a b :: vector3 and rA rB :: real
  defines "distSq \<equiv> (v3x a - v3x b)\<^sup>2 + (v3y a - v3y b)\<^sup>2 + (v3z a - v3z b)\<^sup>2"
  shows "(checkCollision a rA b rB \<longleftrightarrow> distSq < (rA + rB)\<^sup>2)
       \<and> (distSq = (rA + rB)\<^sup>2 \<longrightarrow> \<not> checkCollision a rA b rB)
       \<and> (sqrt distSq = 2 \<longrightarrow> \<not> checkCollision a 1 b 1)
       \<and> (sqrt distSq = 1.999 \<longrightarrow> checkCollision a 1 b 1)"
proof -
  have eq: "checkCollision a r1 r2' r3 = ((v3x a - v3x r2')\<^sup>2 + (v3y a - v3y r2')\<^sup>2
      + (v3z a - v3z r2')\<^sup>2 < (r1 + r3)\<^sup>2)" for r1 r2' r3
    by (simp add: checkCollision_def Let_def power2_eq_square)
  have nn: "0 \<le> distSq" by (simp add: distSq_def)
  have two: "\<not> checkCollision a 1 b 1" if "sqrt distSq = 2"
  proof -
    have "distSq = 2\<^sup>2" using that nn by (metis real_sqrt_pow2)
    then show ?thesis by (simp add: eq distSq_def)
  qed
  have near: "checkCollision a 1 b 1" if "sqrt distSq = 1.999"
  proof -
    have "distSq = 1.999\<^sup>2" using that nn by (metis real_sqrt_pow2)
    then show ?thesis by (simp add: eq distSq_def power2_eq_square)
  qed
  show ?thesis
    using two near by (simp add: eq distSq_def)
qed

theorem C4_collision_boundary_witness:
  "\<not> checkCollision \<lparr>v3x = 0, v3y = 0, v3z = 0\<rparr> 1 \<lparr>v3x = 2, v3y = 0, v3z = 0\<rparr> 1
   \<and> checkCollision \<lparr>v3x = 0, v3y = 0, v3z = 0\<rparr> 1 \<lparr>v3x = 1.999, v3y = 0, v3z = 0\<rparr> 1
   \<and> \<not> checkCollision \<lparr>v3x = 1, v3y = 2, v3z = 2\<rparr> 1 \<lparr>v3x = 1, v3y = 6, v3z = - 1\<rparr> 4"
  using C4_collision_boundary [where a = "\<lparr>v3x = 0, v3y = 0, v3z = 0\<rparr>"
      and b = "\<lparr>v3x = 2, v3y = 0, v3z = 0\<rparr>" and rA = 1 and rB = 1]
    C4_collision_boundary [where a = "\<lparr>v3x = 0, v3y = 0, v3z = 0\<rparr>"
      and b = "\<lparr>v3x = 1.999, v3y = 0, v3z = 0\<rparr>" and rA = 1 and rB = 1]
    C4_collision_boundary [where a = "\<lparr>v3x = 1, v3y = 2, v3z = 2\<rparr>"
      and b = "\<lparr>v3x = 1, v3y = 6, v3z = - 1\<rparr>" and rA = 1 and rB = 4]
  by (simp add: power2_eq_square)

text \<open>
  Claim C5 (projection clipping). With \<open>pz = (p.y - 8) * sin 0.2 + (p.z + 30) * cos 0.2\<close>
  the depth after pitch and \<open>py = (p.y - 8) * cos 0.2 - (p.z + 30) * sin 0.2\<close> the height
  after pitch, \<open>projectVector\<close> returns no result exactly when \<open>pz \<le> 1\<close> or \<open>pz > 5000\<close>,
  and the screen point \<open>((p.x - 0) * (500 / pz) + W / 2, - py * (500 / pz) + H / 2)\<close>
  otherwise. The function is total: it has no third outcome.
\<close>

theorem C5_projection_clipping:
  fixes p :: vector3 and W H cz :: real
  defines "py \<equiv> (v3y p - 8) * cos 0.2 - (v3z p + 30) * sin 0.2"
  defines "pz \<equiv> (v3y p - 8) * sin 0.2 + (v3z p + 30) * cos 0.2"
  shows "(projectVector p W H cz = None) = (pz \<le> 1 \<or> pz > 5000)
       \<and> projectVector p W H cz =
           (if pz \<le> 1 \<or> pz > 5000 then None
            else Some \<lparr>v2x = (v3x p - 0) * (500 / pz) + W / 2,
                       v2y = - py * (500 / pz) + H / 2\<rparr>)"
  by (simp add: projectVector_def Let_def FOV_def NEAR_CLIP_def VIEW_DISTANCE_def
      CAMERA_POS_def CAMERA_PITCH_def py_def pz_def)

text \<open>
  Claim C10 (the dead parameter). The results of \<open>projectVector\<close> and \<open>getScaleFactor\<close> do
  not depend on their last argument \<open>_cameraZ\<close>.
\<close>

theorem C10_dead_parameter:
  "projectVector v W H c1 = projectVector v W H c2 \<and> getScaleFactor z c1 = getScaleFactor z c2"
  by (simp add: projectVector_def getScaleFactor_def)

section \<open>What each primitive leaves alone\<close>

lemma shell_update [simp]:
  "shell (s\<lparr>randCalls := n\<rparr>) = shell s"
  "shell (s\<lparr>clockCalls := n\<rparr>) = shell s"
  "shell (s\<lparr>lastFireTime := x\<rparr>) = shell s"
  "shell (s\<lparr>particles := ps\<rparr>) = shell s"
  "shell (s\<lparr>entities := es\<rparr>) = shell s"
  "shell (s\<lparr>player := pl\<rparr>) = shell s"
  "shell (s\<lparr>score := x\<rparr>) = shell s"
  "shell (s\<lparr>reticle := r\<rparr>) = shell s"
  by (simp_all add: shell_def)

lemma modifyEntity_frame [simp]:
  "player (modifyEntity i f s) = player s"
  "score (modifyEntity i f s) = score s"
  "shell (modifyEntity i f s) = shell s"
  "length (entities (modifyEntity i f s)) = length (entities s)"
  by (simp_all add: modifyEntity_def)

lemma modifyEntity_entities:
  "entities (modifyEntity i f s) = (entities s)[i := f (entities s ! i)]"
  by (simp add: modifyEntity_def)

lemma modifyEntity_nth [simp]:
  "i < length (entities s) \<Longrightarrow> entities (modifyEntity i f s) ! i = f (entities s ! i)"
  "k \<noteq> i \<Longrightarrow> entities (modifyEntity i f s) ! k = entities s ! k"
  by (simp_all add: modifyEntity_def)

lemma explosionParticle_frame [simp]:
  "player (explosionParticle e p c s) = player s"
  "score (explosionParticle e p c s) = score s"
  "shell (explosionParticle e p c s) = shell s"
  "entities (explosionParticle e p c s) = entities s"
  by (simp_all add: explosionParticle_def Let_def)

lemma explosionLoop_frame [simp]:
  "player (explosionLoop e p c n s) = player s"
  "score (explosionLoop e p c n s) = score s"
  "shell (explosionLoop e p c n s) = shell s"
  "entities (explosionLoop e p c n s) = entities s"
  by (induction n arbitrary: s; simp)+

lemma spawnExplosion_frame [simp]:
  "player (spawnExplosion e p c s) = player s"
  "score (spawnExplosion e p c s) = score s"
  "shell (spawnExplosion e p c s) = shell s"
  "entities (spawnExplosion e p c s) = entities s"
  by (simp_all add: spawnExplosion_def)

lemma thrusterParticle_frame [simp]:
  "player (thrusterParticle e p off s) = player s"
  "score (thrusterParticle e p off s) = score s"
  "shell (thrusterParticle e p off s) = shell s"
  "entities (thrusterParticle e p off s) = entities s"
  "lastFireTime (thrusterParticle e p off s) = lastFireTime s"
  "clockCalls (thrusterParticle e p off s) = clockCalls s"
  by (simp_all add: thrusterParticle_def Let_def)

lemma spawnThrusterParticle_frame [simp]:
  "player (spawnThrusterParticle e p r s) = player s"
  "score (spawnThrusterParticle e p r s) = score s"
  "shell (spawnThrusterParticle e p r s) = shell s"
  "entities (spawnThrusterParticle e p r s) = entities s"
  "lastFireTime (spawnThrusterParticle e p r s) = lastFireTime s"
  "clockCalls (spawnThrusterParticle e p r s) = clockCalls s"
  by (simp_all add: spawnThrusterParticle_def)

lemma spawnEnemy_frame [simp]:
  "player (spawnEnemy e c s) = player s"
  "score (spawnEnemy e c s) = score s"
  "shell (spawnEnemy e c s) = shell s"
  "lastFireTime (spawnEnemy e c s) = lastFireTime s"
  "clockCalls (spawnEnemy e c s) = clockCalls s"
  by (simp_all add: spawnEnemy_def Let_def)

lemma spawnProjectile_frame [simp]:
  "player (spawnProjectile e p q b s) = player s"
  "score (spawnProjectile e p q b s) = score s"
  "shell (spawnProjectile e p q b s) = shell s"
  "entities (spawnProjectile e p q b s) = entities s @ [newProjectile (rand e (randCalls s)) p q b]"
  by (simp_all add: spawnProjectile_def)

lemma newProjectile_fields [simp]:
  "scoreValue (newProjectile r p q b) = 0"
  "etype (newProjectile r p q b) = (if b then PROJECTILE_Player else PROJECTILE_Enemy)"
  "active (newProjectile r p q b) = True"
  "radius (newProjectile r p q b) = 2"
  "position (newProjectile r p q b) = p\<lparr>v3z := v3z p + (if b then 5 else - 5)\<rparr>"
  by (simp_all add: newProjectile_def Let_def)

section \<open>Stages before the entity pass\<close>

lemma reticleStage_frame [simp]:
  "player (reticleStage s) = player s"
  "score (reticleStage s) = score s"
  "shell (reticleStage s) = shell s"
  "entities (reticleStage s) = entities s"
  "lastFireTime (reticleStage s) = lastFireTime s"
  "clockCalls (reticleStage s) = clockCalls s"
  "input (reticleStage s) = input s"
  by (simp_all add: reticleStage_def Let_def)

lemma shipStage_frame [simp]:
  "apartFromHealth (player (shipStage pr s)) = apartFromHealth ((player (shipStage pr s))\<lparr>health := health (player s)\<rparr>)"
  "health (player (shipStage pr s)) = health (player s)"
  "radius (player (shipStage pr s)) = radius (player s)"
  "score (shipStage pr s) = score s"
  "shell (shipStage pr s) = shell s"
  "entities (shipStage pr s) = entities s"
  "lastFireTime (shipStage pr s) = lastFireTime s"
  "clockCalls (shipStage pr s) = clockCalls s"
  by (simp_all add: shipStage_def Let_def apartFromHealth_def)

lemma thrusterStage_frame [simp]:
  "player (thrusterStage e s) = player s"
  "score (thrusterStage e s) = score s"
  "shell (thrusterStage e s) = shell s"
  "entities (thrusterStage e s) = entities s"
  "lastFireTime (thrusterStage e s) = lastFireTime s"
  "clockCalls (thrusterStage e s) = clockCalls s"
  by (simp_all add: thrusterStage_def)

lemma spawnStage_frame [simp]:
  "player (spawnStage e pr s) = player s"
  "score (spawnStage e pr s) = score s"
  "shell (spawnStage e pr s) = shell s"
  "lastFireTime (spawnStage e pr s) = lastFireTime s"
  "clockCalls (spawnStage e pr s) = clockCalls s"
  by (simp_all add: spawnStage_def Let_def)

lemma fireStage_frame [simp]:
  "player (fireStage e pr s) = player s"
  "score (fireStage e pr s) = score s"
  "shell (fireStage e pr s) = shell s"
  by (simp_all add: fireStage_def Let_def)

section \<open>The entity pass\<close>

lemma fold_preserves:
  assumes "\<And>x s. P (f x s) = P s"
  shows "P (fold f xs s) = P s"
  using assms by (induction xs arbitrary: s) simp_all

lemma list_all_upd:
  "list_all P xs \<Longrightarrow> (i < length xs \<Longrightarrow> P x) \<Longrightarrow> list_all P (xs[i := x])"
  by (cases "i < length xs") (auto simp: list_all_length nth_list_update)

subsection \<open>Shell, player and length\<close>

lemma moveEntity_frame [simp]:
  "player (moveEntity e dt sp i s) = player s"
  "score (moveEntity e dt sp i s) = score s"
  "shell (moveEntity e dt sp i s) = shell s"
  by (simp_all add: moveEntity_def Let_def)

lemma cullEntity_frame [simp]:
  "player (cullEntity i s) = player s"
  "score (cullEntity i s) = score s"
  "shell (cullEntity i s) = shell s"
  by (simp_all add: cullEntity_def Let_def)

lemma hitByProjectile_frame [simp]:
  "player (hitByProjectile e i j s) = player s"
  "shell (hitByProjectile e i j s) = shell s"
  "length (entities (hitByProjectile e i j s)) = length (entities s)"
  by (simp_all add: hitByProjectile_def Let_def)

lemma hits_frame [simp]:
  "player (fold (hitByProjectile e i) js s) = player s"
  "shell (fold (hitByProjectile e i) js s) = shell s"
  "length (entities (fold (hitByProjectile e i) js s)) = length (entities s)"
  by (rule fold_preserves; simp)+

lemma collideEnemy_frame [simp]:
  "shell (collideEnemy e i s) = shell s"
  "length (entities (collideEnemy e i s)) = length (entities s)"
  "apartFromHealth (player (collideEnemy e i s)) = apartFromHealth (player s)"
  "radius (player (collideEnemy e i s)) = radius (player s)"
  "position (player (collideEnemy e i s)) = position (player s)"
  by (simp_all add: collideEnemy_def Let_def apartFromHealth_def)

lemma collideEnemy_health: "health (player (collideEnemy e i s)) \<le> health (player s)"
  by (simp add: collideEnemy_def Let_def)

lemma collideEnemyProjectile_frame [simp]:
  "shell (collideEnemyProjectile e i s) = shell s"
  "score (collideEnemyProjectile e i s) = score s"
  "length (entities (collideEnemyProjectile e i s)) = length (entities s)"
  "apartFromHealth (player (collideEnemyProjectile e i s)) = apartFromHealth (player s)"
  "radius (player (collideEnemyProjectile e i s)) = radius (player s)"
  "position (player (collideEnemyProjectile e i s)) = position (player s)"
  by (simp_all add: collideEnemyProjectile_def Let_def apartFromHealth_def)

lemma collideEnemyProjectile_health:
  "health (player (collideEnemyProjectile e i s)) \<le> health (player s)"
  by (simp add: collideEnemyProjectile_def Let_def)

lemma moveEntity_length: "length (entities s) \<le> length (entities (moveEntity e dt sp i s))"
  by (simp add: moveEntity_def Let_def)

lemma cullEntity_length [simp]: "length (entities (cullEntity i s)) = length (entities s)"
  by (simp add: cullEntity_def Let_def)

lemma updateEntity_frame [simp]:
  "shell (updateEntity e dt sp i s) = shell s"
  "apartFromHealth (player (updateEntity e dt sp i s)) = apartFromHealth (player s)"
  "radius (player (updateEntity e dt sp i s)) = radius (player s)"
  "position (player (updateEntity e dt sp i s)) = position (player s)"
  by (simp_all add: updateEntity_def)

lemma updateEntity_health: "health (player (updateEntity e dt sp i s)) \<le> health (player s)"
proof -
  have "health (player (collideEnemyProjectile e i (collideEnemy e i (cullEntity i (moveEntity e dt sp i s)))))
      \<le> health (player (collideEnemy e i (cullEntity i (moveEntity e dt sp i s))))"
    by (rule collideEnemyProjectile_health)
  also have "\<dots> \<le> health (player (cullEntity i (moveEntity e dt sp i s)))"
    by (rule collideEnemy_health)
  finally show ?thesis by (simp add: updateEntity_def)
qed

lemma updateEntity_length: "length (entities s) \<le> length (entities (updateEntity e dt sp i s))"
  using moveEntity_length [of s e dt sp i] by (simp add: updateEntity_def)

lemma visits_shell [simp]: "shell (fold (updateEntity e dt sp) is s) = shell s"
  by (rule fold_preserves) simp

lemma visits_player [simp]:
  "apartFromHealth (player (fold (updateEntity e dt sp) is s)) = apartFromHealth (player s)"
  "radius (player (fold (updateEntity e dt sp) is s)) = radius (player s)"
  "position (player (fold (updateEntity e dt sp) is s)) = position (player s)"
  by (rule fold_preserves; simp)+

lemma visits_health: "health (player (fold (updateEntity e dt sp) is s)) \<le> health (player s)"
proof (induction "is" arbitrary: s)
  case Nil
  show ?case by simp
next
  case (Cons i "is")
  have "health (player (fold (updateEntity e dt sp) is (updateEntity e dt sp i s)))
      \<le> health (player (updateEntity e dt sp i s))"
    by (rule Cons.IH)
  also have "\<dots> \<le> health (player s)" by (rule updateEntity_health)
  finally show ?case by simp
qed

lemma visits_length: "length (entities s) \<le> length (entities (fold (updateEntity e dt sp) is s))"
proof (induction "is" arbitrary: s)
  case Nil
  show ?case by simp
next
  case (Cons i "is")
  have "length (entities s) \<le> length (entities (updateEntity e dt sp i s))"
    by (rule updateEntity_length)
  also have "\<dots> \<le> length (entities (fold (updateEntity e dt sp) is (updateEntity e dt sp i s)))"
    by (rule Cons.IH)
  finally show ?case by simp
qed

lemma update_stages:
  "update e pr dt s =
     particleStage dt (compactStage (entityPass e dt (scrollSpeedOf pr dt) (prePass e pr s)))"
  by (simp add: update_def prePass_def Let_def)

lemma compactStage_frame [simp]:
  "player (compactStage s) = player s"
  "score (compactStage s) = score s"
  "shell (compactStage s) = shell s"
  "entities (compactStage s) = filter active (entities s)"
  by (simp_all add: compactStage_def)

lemma particleStage_frame [simp]:
  "player (particleStage dt s) = player s"
  "score (particleStage dt s) = score s"
  "shell (particleStage dt s) = shell s"
  "entities (particleStage dt s) = entities s"
  by (simp_all add: particleStage_def Let_def)

lemma prePass_frame [simp]:
  "score (prePass e pr s) = score s"
  "shell (prePass e pr s) = shell s"
  "health (player (prePass e pr s)) = health (player s)"
  "radius (player (prePass e pr s)) = radius (player s)"
  "player (prePass e pr s) = player (shipStage pr s)"
  by (simp_all add: prePass_def) (simp add: shipStage_def Let_def)

subsection \<open>The score\<close>

lemma spawnEnemy_scores: "scoresNonneg s \<Longrightarrow> scoresNonneg (spawnEnemy e c s)"
  by (simp add: scoresNonneg_def spawnEnemy_def Let_def)

lemma spawnProjectile_scores: "scoresNonneg s \<Longrightarrow> scoresNonneg (spawnProjectile e p q b s)"
  by (simp add: scoresNonneg_def)

lemma prePass_scores: "scoresNonneg s \<Longrightarrow> scoresNonneg (prePass e pr s)"
proof -
  assume a: "scoresNonneg s"
  have 1: "scoresNonneg (thrusterStage e (shipStage pr (reticleStage s)))"
    using a by (simp add: scoresNonneg_def)
  have 2: "scoresNonneg (spawnStage e pr u)" if "scoresNonneg u" for u
  proof -
    have "scoresNonneg (u\<lparr>randCalls := randCalls u + 1\<rparr>)"
      using that by (simp add: scoresNonneg_def)
    then show ?thesis
      using that spawnEnemy_scores by (simp add: spawnStage_def Let_def)
  qed
  have 3: "scoresNonneg (fireStage e pr u)" if "scoresNonneg u" for u
  proof -
    have b: "scoresNonneg (u\<lparr>clockCalls := n\<rparr>)" for n
      using that by (simp add: scoresNonneg_def)
    have c: "scoresNonneg (w\<lparr>lastFireTime := x, clockCalls := n\<rparr>)" if "scoresNonneg w" for w x n
      using that by (simp add: scoresNonneg_def)
    show ?thesis
      using b c spawnProjectile_scores by (simp add: fireStage_def Let_def)
  qed
  show ?thesis unfolding prePass_def by (intro 3 2 1)
qed

lemma modifyEntity_scores:
  assumes "scoresNonneg s" and "\<And>a. scoreValue (f a) = scoreValue a"
  shows "scoresNonneg (modifyEntity i f s)"
proof -
  have "list_all (\<lambda>a. 0 \<le> scoreValue a) ((entities s)[i := f (entities s ! i)])"
    using assms by (intro list_all_upd) (simp_all add: scoresNonneg_def list_all_length)
  then show ?thesis by (simp add: scoresNonneg_def modifyEntity_entities)
qed

lemma spawnExplosion_scores [simp]: "scoresNonneg (spawnExplosion e p c s) = scoresNonneg s"
  by (simp add: scoresNonneg_def)

lemma score_update_scores [simp]: "scoresNonneg (s\<lparr>score := x\<rparr>) = scoresNonneg s"
  "scoresNonneg (s\<lparr>player := pl\<rparr>) = scoresNonneg s"
  "scoresNonneg (s\<lparr>randCalls := n\<rparr>) = scoresNonneg s"
  by (simp_all add: scoresNonneg_def)

lemma moveEntity_scores: "scoresNonneg s \<Longrightarrow> scoresNonneg (moveEntity e dt sp i s)"
  by (simp add: moveEntity_def Let_def modifyEntity_scores spawnProjectile_scores)

lemma cullEntity_scores: "scoresNonneg s \<Longrightarrow> scoresNonneg (cullEntity i s)"
  by (simp add: cullEntity_def Let_def modifyEntity_scores)

lemma hitByProjectile_scores:
  assumes "scoresNonneg s" and "i < length (entities s)"
  shows "scoresNonneg (hitByProjectile e i j s) \<and> score s \<le> score (hitByProjectile e i j s)"
proof -
  define s1 where "s1 = modifyEntity i (\<lambda>a. a\<lparr>health := health a - 50\<rparr>) s"
  define s2 where "s2 = modifyEntity j (\<lambda>a. a\<lparr>active := False\<rparr>) s1"
  define s3 where "s3 = spawnExplosion e (position (entities s2 ! i)) (color (entities s2 ! i)) s2"
  have n1: "scoresNonneg s1" unfolding s1_def using assms(1) by (rule modifyEntity_scores) simp
  have n2: "scoresNonneg s2" unfolding s2_def using n1 by (rule modifyEntity_scores) simp
  have n3: "scoresNonneg s3" unfolding s3_def using n2 by simp
  have l3: "i < length (entities s3)" using assms(2) by (simp add: s3_def s2_def s1_def)
  have v: "0 \<le> scoreValue (entities s3 ! i)"
    using n3 l3 by (simp add: scoresNonneg_def list_all_length)
  have n4: "scoresNonneg ((modifyEntity i (\<lambda>a. a\<lparr>active := False\<rparr>) s3)\<lparr>score := x\<rparr>)" for x
    using modifyEntity_scores [OF n3, of "\<lambda>a. a\<lparr>active := False\<rparr>" i] by simp
  have sc: "score s3 = score s" by (simp add: s3_def s2_def s1_def)
  show ?thesis
    using assms(1) n3 n4 v sc
    by (simp add: hitByProjectile_def Let_def s1_def [symmetric] s2_def [symmetric] s3_def [symmetric])
qed

lemma hits_scores:
  assumes "scoresNonneg s" and "i < length (entities s)"
  shows "scoresNonneg (fold (hitByProjectile e i) js s) \<and> score s \<le> score (fold (hitByProjectile e i) js s)"
  using assms
proof (induction js arbitrary: s)
  case Nil
  then show ?case by simp
next
  case (Cons j js)
  have 1: "scoresNonneg (hitByProjectile e i j s)" "score s \<le> score (hitByProjectile e i j s)"
    using hitByProjectile_scores [OF Cons.prems] by simp_all
  have 2: "i < length (entities (hitByProjectile e i j s))"
    using Cons.prems(2) by simp
  show ?case
    using Cons.IH [OF 1(1) 2] 1(2) by simp
qed

lemma collideEnemy_scores:
  assumes "scoresNonneg s" and "i < length (entities s)"
  shows "scoresNonneg (collideEnemy e i s) \<and> score s \<le> score (collideEnemy e i s)"
  using hits_scores [OF assms, of e "activePlayerProjectiles s"] assms(1)
  by (simp add: collideEnemy_def Let_def modifyEntity_scores)

lemma collideEnemyProjectile_scores:
  "scoresNonneg s \<Longrightarrow> scoresNonneg (collideEnemyProjectile e i s)"
  by (simp add: collideEnemyProjectile_def Let_def modifyEntity_scores)

lemma updateEntity_scores:
  assumes "scoresNonneg s" and "i < length (entities s)"
  shows "scoresNonneg (updateEntity e dt sp i s) \<and> score s \<le> score (updateEntity e dt sp i s)"
proof -
  let ?m = "cullEntity i (moveEntity e dt sp i s)"
  have 1: "scoresNonneg ?m" using assms(1) by (intro cullEntity_scores moveEntity_scores)
  have 2: "i < length (entities ?m)" using assms(2) moveEntity_length [of s e dt sp i] by simp
  show ?thesis
    using collideEnemy_scores [OF 1 2, of e] assms(1)
    by (simp add: updateEntity_def collideEnemyProjectile_scores)
qed

lemma visits_scores:
  assumes "scoresNonneg s" and "\<forall>i \<in> set is. i < length (entities s)"
  shows "scoresNonneg (fold (updateEntity e dt sp) is s) \<and> score s \<le> score (fold (updateEntity e dt sp) is s)"
  using assms
proof (induction "is" arbitrary: s)
  case Nil
  then show ?case by simp
next
  case (Cons i "is")
  have 1: "scoresNonneg (updateEntity e dt sp i s)" "score s \<le> score (updateEntity e dt sp i s)"
    using updateEntity_scores [of s i e dt sp] Cons.prems by simp_all
  have 2: "\<forall>k \<in> set is. k < length (entities (updateEntity e dt sp i s))"
    using Cons.prems(2) updateEntity_length [of s e dt sp i] by auto
  show ?case
    using Cons.IH [OF 1(1) 2] 1(2) by simp
qed

lemma entityPass_scores:
  assumes "scoresNonneg s"
  shows "scoresNonneg (entityPass e dt sp s) \<and> score s \<le> score (entityPass e dt sp s)"
  unfolding entityPass_def by (rule visits_scores [OF assms]) simp

lemma update_scores:
  assumes "scoresNonneg s"
  shows "scoresNonneg (update e pr dt s) \<and> score s \<le> score (update e pr dt s)"
proof -
  have 1: "scoresNonneg (prePass e pr s)" by (rule prePass_scores [OF assms])
  note 2 = entityPass_scores [OF 1, of e dt "scrollSpeedOf pr dt"]
  have "scoresNonneg (update e pr dt s)"
    using 2 by (simp add: update_stages scoresNonneg_def list_all_iff)
  then show ?thesis using 2 by (simp add: update_stages)
qed

subsection \<open>A visit leaves the other entities alone\<close>

lemma hitByProjectile_other:
  "k \<noteq> i \<Longrightarrow> k \<noteq> j \<Longrightarrow> entities (hitByProjectile e i j s) ! k = entities s ! k"
  by (simp add: hitByProjectile_def Let_def)

lemma hits_other:
  "k \<noteq> i \<Longrightarrow> k \<notin> set js \<Longrightarrow> entities (fold (hitByProjectile e i) js s) ! k = entities s ! k"
  by (induction js arbitrary: s) (simp_all add: hitByProjectile_other)

lemma moveEntity_other:
  "k \<noteq> i \<Longrightarrow> k < length (entities s) \<Longrightarrow> entities (moveEntity e dt sp i s) ! k = entities s ! k"
  by (simp add: moveEntity_def Let_def nth_append)

lemma cullEntity_other:
  "k \<noteq> i \<Longrightarrow> entities (cullEntity i s) ! k = entities s ! k"
  by (simp add: cullEntity_def Let_def)

lemma not_in_activePlayerProjectiles:
  "etype (entities s ! k) \<noteq> PROJECTILE_Player \<Longrightarrow> k \<notin> set (activePlayerProjectiles s)"
  by (simp add: activePlayerProjectiles_def)

lemma collideEnemy_other:
  "k \<noteq> i \<Longrightarrow> etype (entities s ! k) \<noteq> PROJECTILE_Player
     \<Longrightarrow> entities (collideEnemy e i s) ! k = entities s ! k"
  by (simp add: collideEnemy_def Let_def hits_other not_in_activePlayerProjectiles)

lemma collideEnemyProjectile_other:
  "k \<noteq> i \<Longrightarrow> entities (collideEnemyProjectile e i s) ! k = entities s ! k"
  by (simp add: collideEnemyProjectile_def Let_def)

lemma updateEntity_other:
  assumes "k \<noteq> i" and "k < length (entities s)" and "etype (entities s ! k) \<noteq> PROJECTILE_Player"
  shows "entities (updateEntity e dt sp i s) ! k = entities s ! k"
proof -
  let ?m = "cullEntity i (moveEntity e dt sp i s)"
  have m: "entities ?m ! k = entities s ! k"
    using assms by (simp add: cullEntity_other moveEntity_other)
  have "entities (collideEnemy e i ?m) ! k = entities ?m ! k"
    using assms m by (intro collideEnemy_other) simp_all
  then show ?thesis
    using assms(1) m by (simp add: updateEntity_def collideEnemyProjectile_other)
qed

lemma visits_other:
  assumes "k \<notin> set is" and "k < length (entities s)" and "etype (entities s ! k) \<noteq> PROJECTILE_Player"
  shows "entities (fold (updateEntity e dt sp) is s) ! k = entities s ! k"
  using assms
proof (induction "is" arbitrary: s)
  case Nil
  then show ?case by simp
next
  case (Cons i "is")
  have ne: "k \<noteq> i" and rest: "k \<notin> set is" using Cons.prems(1) by simp_all
  have same: "entities (updateEntity e dt sp i s) ! k = entities s ! k"
    using ne Cons.prems(2,3) by (rule updateEntity_other)
  have len: "k < length (entities (updateEntity e dt sp i s))"
    using Cons.prems(2) updateEntity_length [of s e dt sp i] by simp
  have ty: "etype (entities (updateEntity e dt sp i s) ! k) \<noteq> PROJECTILE_Player"
    using same Cons.prems(3) by simp
  show ?case
    using Cons.IH [OF rest len ty] same by simp
qed

subsection \<open>Collisions write only health and active\<close>

lemma map_update_same:
  "f (g (xs ! k)) = f (xs ! k) \<Longrightarrow> map f (xs[k := g (xs ! k)]) = map f xs"
  by (cases "k < length xs") (simp_all add: map_update list_update_same_conv list_update_beyond)

lemma bodyOf_fields:
  assumes "bodyOf a = bodyOf b"
  shows "position a = position b" "radius a = radius b" "etype a = etype b"
    "velocity a = velocity b" "scoreValue a = scoreValue b" "ident a = ident b"
    "color a = color b"
proof -
  have "position (bodyOf a) = position (bodyOf b)" "radius (bodyOf a) = radius (bodyOf b)"
    "etype (bodyOf a) = etype (bodyOf b)" "velocity (bodyOf a) = velocity (bodyOf b)"
    "scoreValue (bodyOf a) = scoreValue (bodyOf b)" "ident (bodyOf a) = ident (bodyOf b)"
    "color (bodyOf a) = color (bodyOf b)"
    using assms by simp_all
  then show "position a = position b" "radius a = radius b" "etype a = etype b"
    "velocity a = velocity b" "scoreValue a = scoreValue b" "ident a = ident b"
    "color a = color b"
    by (simp_all add: bodyOf_def)
qed

lemma body_nth:
  assumes "map bodyOf xs = map bodyOf ys" and "k < length ys"
  shows "bodyOf (xs ! k) = bodyOf (ys ! k)"
proof -
  have "length xs = length ys" using assms(1) by (rule map_eq_imp_length_eq)
  then have "map bodyOf xs ! k = bodyOf (xs ! k)" "map bodyOf ys ! k = bodyOf (ys ! k)"
    using assms(2) by simp_all
  then show ?thesis using assms(1) by simp
qed

lemma modifyEntity_body:
  "(\<And>a. bodyOf (f a) = bodyOf a) \<Longrightarrow> map bodyOf (entities (modifyEntity i f s)) = map bodyOf (entities s)"
  by (simp add: map_update_same modifyEntity_entities)

lemma cullEntity_body: "map bodyOf (entities (cullEntity i s)) = map bodyOf (entities s)"
  by (simp add: cullEntity_def Let_def modifyEntity_body bodyOf_def)

lemma hitByProjectile_body:
  "map bodyOf (entities (hitByProjectile e i j s)) = map bodyOf (entities s)"
proof -
  define s1 where "s1 = modifyEntity i (\<lambda>a. a\<lparr>health := health a - 50\<rparr>) s"
  define s2 where "s2 = modifyEntity j (\<lambda>a. a\<lparr>active := False\<rparr>) s1"
  define s3 where "s3 = spawnExplosion e (position (entities s2 ! i)) (color (entities s2 ! i)) s2"
  have 1: "map bodyOf (entities s1) = map bodyOf (entities s)"
    unfolding s1_def by (rule modifyEntity_body) (simp add: bodyOf_def)
  have 2: "map bodyOf (entities s2) = map bodyOf (entities s1)"
    unfolding s2_def by (rule modifyEntity_body) (simp add: bodyOf_def)
  have 3: "map bodyOf (entities s3) = map bodyOf (entities s2)"
    by (simp add: s3_def)
  have 4: "map bodyOf (entities ((modifyEntity i (\<lambda>a. a\<lparr>active := False\<rparr>) s3)\<lparr>score := x\<rparr>))
      = map bodyOf (entities s3)" for x
    using modifyEntity_body [of "\<lambda>a. a\<lparr>active := False\<rparr>" i s3] by (simp add: bodyOf_def)
  show ?thesis
    using 1 2 3 4
    by (simp add: hitByProjectile_def Let_def s1_def [symmetric] s2_def [symmetric] s3_def [symmetric])
qed

lemma hits_body:
  "map bodyOf (entities (fold (hitByProjectile e i) js s)) = map bodyOf (entities s)"
  by (rule fold_preserves) (rule hitByProjectile_body)

lemma collideEnemy_body: "map bodyOf (entities (collideEnemy e i s)) = map bodyOf (entities s)"
proof -
  have "map bodyOf (entities (modifyEntity i (\<lambda>a. a\<lparr>active := False\<rparr>) u)) = map bodyOf (entities u)" for u
    by (rule modifyEntity_body) (simp add: bodyOf_def)
  then show ?thesis by (simp add: collideEnemy_def Let_def hits_body)
qed

lemma collideEnemyProjectile_body:
  "map bodyOf (entities (collideEnemyProjectile e i s)) = map bodyOf (entities s)"
proof -
  have "map bodyOf (entities (modifyEntity i (\<lambda>a. a\<lparr>active := False\<rparr>) u)) = map bodyOf (entities u)" for u
    by (rule modifyEntity_body) (simp add: bodyOf_def)
  then show ?thesis by (simp add: collideEnemyProjectile_def Let_def)
qed

text \<open>After its own move, the rest of a visit keeps an entity's body.\<close>

lemma updateEntity_body_after_move:
  assumes "active (entities s ! i)"
  shows "map bodyOf (entities (updateEntity e dt sp i s)) = map bodyOf (entities (moveEntity e dt sp i s))"
  using assms
  by (simp add: updateEntity_def collideEnemyProjectile_body collideEnemy_body cullEntity_body)

subsection \<open>The visit of an enemy projectile\<close>

lemma moveEntity_enemy_projectile:
  "etype (entities s ! i) = PROJECTILE_Enemy \<Longrightarrow>
     moveEntity e dt sp i s = modifyEntity i (\<lambda>a. a\<lparr>position :=
                (position a)\<lparr>v3z := v3z (position a) - 2.0 * (dt / 16)\<rparr>\<rparr>) s"
  by (simp add: moveEntity_def)

lemma updateEntity_enemy_projectile:
  assumes "i < length (entities s)" and "etype (entities s ! i) = PROJECTILE_Enemy"
    and "active (entities s ! i)"
  shows "position (entities (updateEntity e dt sp i s) ! i)
           = (position (entities s ! i))\<lparr>v3z := v3z (position (entities s ! i)) - 2.0 * (dt / 16)\<rparr>"
    and "velocity (entities (updateEntity e dt sp i s) ! i) = velocity (entities s ! i)"
    and "etype (entities (updateEntity e dt sp i s) ! i) = PROJECTILE_Enemy"
proof -
  let ?m = "moveEntity e dt sp i s"
  have m: "entities ?m ! i = (entities s ! i)\<lparr>position :=
      (position (entities s ! i))\<lparr>v3z := v3z (position (entities s ! i)) - 2.0 * (dt / 16)\<rparr>\<rparr>"
    using assms(1,2) by (simp add: moveEntity_enemy_projectile)
  have lm: "i < length (entities ?m)"
    using assms(1) moveEntity_length [of s e dt sp i] by simp
  have "bodyOf (entities (updateEntity e dt sp i s) ! i) = bodyOf (entities ?m ! i)"
    using updateEntity_body_after_move [OF assms(3)] lm by (rule body_nth)
  note b = bodyOf_fields [OF this]
  show "position (entities (updateEntity e dt sp i s) ! i)
           = (position (entities s ! i))\<lparr>v3z := v3z (position (entities s ! i)) - 2.0 * (dt / 16)\<rparr>"
    using b(1) by (simp add: m)
  show "velocity (entities (updateEntity e dt sp i s) ! i) = velocity (entities s ! i)"
    using b(4) by (simp add: m)
  show "etype (entities (updateEntity e dt sp i s) ! i) = PROJECTILE_Enemy"
    using b(3) assms(2) by (simp add: m)
qed

lemma entityPass_split:
  assumes "i < length (entities s)"
  shows "entityPass e dt sp s =
           fold (updateEntity e dt sp) [Suc i ..< length (entities s)]
             (updateEntity e dt sp i (fold (updateEntity e dt sp) [0 ..< i] s))"
proof -
  have "[0 ..< length (entities s)] = [0 ..< i] @ i # [Suc i ..< length (entities s)]"
  proof -
    have "[0 ..< i + (length (entities s) - i)] = [0 ..< i] @ [i ..< i + (length (entities s) - i)]"
      by (rule upt_add_eq_append) simp
    moreover have "[i ..< length (entities s)] = i # [Suc i ..< length (entities s)]"
      using assms by (rule upt_conv_Cons)
    ultimately show ?thesis using assms by simp
  qed
  then show ?thesis by (simp add: entityPass_def)
qed

text \<open>
  Claim C8 (motion of an enemy projectile). In the per-entity pass of a simulation step
  with elapsed time \<open>dt\<close>, an active enemy projectile keeps its \<open>x\<close> and \<open>y\<close> and its
  \<open>z\<close> goes down by exactly \<open>2.0 * (dt / 16)\<close>. Its velocity, set at launch toward the
  player, stays as it is and takes no part in the motion.
\<close>

theorem C8_enemy_projectile_motion:
  assumes "i < length (entities s)" and "etype (entities s ! i) = PROJECTILE_Enemy"
    and "active (entities s ! i)"
  shows "position (entities (entityPass e dt sp s) ! i)
           = \<lparr>v3x = v3x (position (entities s ! i)),
              v3y = v3y (position (entities s ! i)),
              v3z = v3z (position (entities s ! i)) - 2.0 * (dt / 16)\<rparr>
         \<and> velocity (entities (entityPass e dt sp s) ! i) = velocity (entities s ! i)"
proof -
  let ?a = "fold (updateEntity e dt sp) [0 ..< i] s"
  let ?b = "updateEntity e dt sp i ?a"
  have ty: "etype (entities s ! i) \<noteq> PROJECTILE_Player" using assms(2) by simp
  have a: "entities ?a ! i = entities s ! i"
    using assms(1) ty by (intro visits_other) simp_all
  have la: "i < length (entities ?a)"
    using assms(1) visits_length [of s e dt sp "[0 ..< i]"] by simp
  note b = updateEntity_enemy_projectile [of i ?a e dt sp, unfolded a, OF la assms(2,3)]
  have lb: "i < length (entities ?b)"
    using la updateEntity_length [of ?a e dt sp i] by simp
  have tb: "etype (entities ?b ! i) \<noteq> PROJECTILE_Player" using b(3) by simp
  have c: "entities (fold (updateEntity e dt sp) [Suc i ..< length (entities s)] ?b) ! i = entities ?b ! i"
    using lb tb by (intro visits_other) simp_all
  show ?thesis
    using b(1,2) by (simp add: entityPass_split [OF assms(1)] c)
qed

theorem C8_enemy_projectile_motion_witness:
  "position (entities (entityPass exampleEnv 16 (scrollSpeedOf exampleProps 16) lastStand) ! 1)
     = \<lparr>v3x = 0, v3y = 0, v3z = 0\<rparr>
   \<and> velocity (entities (entityPass exampleEnv 16 (scrollSpeedOf exampleProps 16) lastStand) ! 1)
     = \<lparr>v3x = 0, v3y = 0, v3z = - 2\<rparr>"
proof -
  have e: "entities lastStand = [enemyShot, enemyShot]"
    by (simp add: lastStand_def)
  have 1: "1 < length (entities lastStand)" by (simp add: e)
  have 2: "etype (entities lastStand ! 1) = PROJECTILE_Enemy" by (simp add: e enemyShot_def)
  have 3: "active (entities lastStand ! 1)" by (simp add: e enemyShot_def)
  show ?thesis
    using C8_enemy_projectile_motion [OF 1 2 3, of exampleEnv 16 "scrollSpeedOf exampleProps 16"]
    by (simp add: e enemyShot_def)
qed

section \<open>The frame callback\<close>

lemma update_shell [simp]: "shell (update e pr dt s) = shell s"
  by (simp add: update_stages entityPass_def)

lemma shell_fields:
  assumes "shell a = shell b"
  shows "emitted a = emitted b" "frameRequested a = frameRequested b"
    "lastReportedScore a = lastReportedScore b" "lastReportedHealth a = lastReportedHealth b"
    "lastTime a = lastTime b" "gameTime a = gameTime b" "input a = input b" "keys a = keys b"
  using assms by (simp_all add: shell_def)

lemma stepped_shell:
  "emitted (stepped e pr t s) = emitted s"
  "frameRequested (stepped e pr t s) = False"
  "lastReportedScore (stepped e pr t s) = lastReportedScore s"
  "lastReportedHealth (stepped e pr t s) = lastReportedHealth s"
  "input (stepped e pr t s) = input s"
  "keys (stepped e pr t s) = keys s"
proof -
  let ?s0 = "s\<lparr>frameRequested := False, lastTime := t, gameTime := gameTime s + deltaTimeOf t s\<rparr>"
  have "shell (stepped e pr t s) = shell ?s0" by (simp add: stepped_def)
  note f = shell_fields [OF this]
  show "emitted (stepped e pr t s) = emitted s" using f(1) by simp
  show "frameRequested (stepped e pr t s) = False" using f(2) by simp
  show "lastReportedScore (stepped e pr t s) = lastReportedScore s" using f(3) by simp
  show "lastReportedHealth (stepped e pr t s) = lastReportedHealth s" using f(4) by simp
  show "input (stepped e pr t s) = input s" using f(7) by simp
  show "keys (stepped e pr t s) = keys s" using f(8) by simp
qed

lemma animate_unpaused_eq:
  assumes "\<not> paused pr"
  shows "animate e pr t s = reportStage (render (stepped e pr t s))"
  using assms by (simp add: animate_def stepped_def deltaTimeOf_def Let_def)

lemma reportStage_effect:
  "emitted (reportStage u) =
           emitted u
             @ (if score u \<noteq> lastReportedScore u then [ScoreUpdate (score u)] else [])
             @ (if ceilHealth u \<noteq> lastReportedHealth u then [HealthUpdate (ceilHealth u)] else [])
             @ (if health (player u) > 0 then [] else [GameOver (score u)])"
  "frameRequested (reportStage u) = (health (player u) > 0 \<or> frameRequested u)"
  "player (reportStage u) = player u"
  "entities (reportStage u) = entities u"
  "score (reportStage u) = score u"
  "lastReportedHealth (reportStage u) = ceilHealth u"
  "lastReportedScore (reportStage u) = score u"
  "input (reportStage u) = input u"
  "keys (reportStage u) = keys u"
  by (simp_all add: reportStage_def Let_def ceilHealth_def)

lemma render_effect [simp]:
  "emitted (render u) = emitted u @ [Render]"
  "frameRequested (render u) = frameRequested u"
  "player (render u) = player u"
  "entities (render u) = entities u"
  "score (render u) = score u"
  "lastReportedHealth (render u) = lastReportedHealth u"
  "lastReportedScore (render u) = lastReportedScore u"
  "input (render u) = input u"
  "keys (render u) = keys u"
  "ceilHealth (render u) = ceilHealth u"
  by (simp_all add: render_def ceilHealth_def)

lemma animate_unpaused:
  fixes e pr t s
  defines "u \<equiv> stepped e pr t s"
  assumes "\<not> paused pr"
  shows "emitted (animate e pr t s) =
           emitted s @ [Render]
             @ (if score u \<noteq> lastReportedScore s then [ScoreUpdate (score u)] else [])
             @ (if ceilHealth u \<noteq> lastReportedHealth s then [HealthUpdate (ceilHealth u)] else [])
             @ (if health (player u) > 0 then [] else [GameOver (score u)])"
    and "frameRequested (animate e pr t s) = (health (player u) > 0)"
    and "player (animate e pr t s) = player u"
    and "entities (animate e pr t s) = entities u"
    and "score (animate e pr t s) = score u"
    and "lastReportedHealth (animate e pr t s) = ceilHealth u"
    and "lastReportedScore (animate e pr t s) = score u"
    and "input (animate e pr t s) = input s"
    and "keys (animate e pr t s) = keys s"
  using stepped_shell [of e pr t s]
  unfolding u_def animate_unpaused_eq [OF assms(2)]
  by (simp_all add: reportStage_effect)

lemma animate_paused:
  assumes "paused pr"
  shows "emitted (animate e pr t s) = emitted s @ [Render]"
    and "frameRequested (animate e pr t s)"
    and "player (animate e pr t s) = player s"
    and "entities (animate e pr t s) = entities s"
    and "score (animate e pr t s) = score s"
    and "lastReportedHealth (animate e pr t s) = lastReportedHealth s"
    and "lastReportedScore (animate e pr t s) = lastReportedScore s"
    and "input (animate e pr t s) = input s"
    and "keys (animate e pr t s) = keys s"
  using assms by (simp_all add: animate_def Let_def render_def)

section \<open>Runs of the host\<close>

lemma run_append: "run e pr (evs @ later) s = run e pr later (run e pr evs s)"
  by (simp add: run_def)

lemma scoresNonneg_cong: "entities a = entities b \<Longrightarrow> scoresNonneg a = scoresNonneg b"
  by (simp add: scoresNonneg_def)

lemma stepped_scores:
  assumes "scoresNonneg s"
  shows "scoresNonneg (stepped e pr t s) \<and> score s \<le> score (stepped e pr t s)"
proof -
  let ?s0 = "s\<lparr>frameRequested := False, lastTime := t, gameTime := gameTime s + deltaTimeOf t s\<rparr>"
  have "scoresNonneg ?s0" using assms by (simp add: scoresNonneg_def)
  from update_scores [OF this, of e pr "deltaTimeOf t s"] show ?thesis
    by (simp add: stepped_def)
qed

lemma animate_scores:
  assumes "scoresNonneg s"
  shows "scoresNonneg (animate e pr t s) \<and> score s \<le> score (animate e pr t s)"
proof (cases "paused pr")
  case True
  have "scoresNonneg (animate e pr t s) = scoresNonneg s"
    by (rule scoresNonneg_cong) (rule animate_paused(4) [OF True])
  then show ?thesis using assms by (simp add: animate_paused(5) [OF True])
next
  case False
  have "scoresNonneg (animate e pr t s) = scoresNonneg (stepped e pr t s)"
    by (rule scoresNonneg_cong) (rule animate_unpaused(4) [OF False])
  then show ?thesis
    using stepped_scores [OF assms, of e pr t] by (simp add: animate_unpaused(5) [OF False])
qed

lemma hostStep_scores:
  assumes "scoresNonneg s"
  shows "scoresNonneg (hostStep e pr ev s) \<and> score s \<le> score (hostStep e pr ev s)"
proof (cases ev)
  case (Frame t)
  then show ?thesis using assms animate_scores [OF assms, of e pr t] by simp
next
  case (PointerMove x y)
  then show ?thesis using assms by (simp add: handleMove_def scoresNonneg_def Let_def)
next
  case (KeyDown k)
  then show ?thesis using assms by (simp add: scoresNonneg_def)
next
  case (KeyUp k)
  then show ?thesis using assms by (simp add: scoresNonneg_def)
qed

lemma run_scores:
  assumes "scoresNonneg s"
  shows "scoresNonneg (run e pr evs s) \<and> score s \<le> score (run e pr evs s)"
  using assms
proof (induction evs arbitrary: s)
  case Nil
  then show ?case by (simp add: run_def)
next
  case (Cons ev evs)
  note h = hostStep_scores [OF Cons.prems, of e pr ev]
  from Cons.IH [of "hostStep e pr ev s"] h show ?case
    by (simp add: run_def)
qed

lemma steps_scores:
  assumes "scoresNonneg s"
  shows "scoresNonneg (fold (update e pr) dts s) \<and> score s \<le> score (fold (update e pr) dts s)"
  using assms
proof (induction dts arbitrary: s)
  case Nil
  then show ?case by simp
next
  case (Cons dt dts)
  note h = update_scores [OF Cons.prems, of e pr dt]
  from Cons.IH [of "update e pr dt s"] h show ?case by simp
qed

lemma initial_scores: "scoresNonneg initialState"
  by (simp add: scoresNonneg_def initialState_def)

lemma hitByProjectile_score_cases:
  "score (hitByProjectile e i j s) = score s
   \<or> score (hitByProjectile e i j s) = score s + scoreValue (entities s ! i)"
proof -
  define s1 where "s1 = modifyEntity i (\<lambda>a. a\<lparr>health := health a - 50\<rparr>) s"
  define s2 where "s2 = modifyEntity j (\<lambda>a. a\<lparr>active := False\<rparr>) s1"
  define s3 where "s3 = spawnExplosion e (position (entities s2 ! i)) (color (entities s2 ! i)) s2"
  have b: "map bodyOf (entities s3) = map bodyOf (entities s)"
    using modifyEntity_body [of "\<lambda>a. a\<lparr>health := health a - 50\<rparr>" i s]
      modifyEntity_body [of "\<lambda>a. a\<lparr>active := False\<rparr>" j s1]
    by (simp add: s3_def s2_def s1_def bodyOf_def)
  have v: "scoreValue (entities s3 ! i) = scoreValue (entities s ! i)"
  proof (cases "i < length (entities s)")
    case True
    from body_nth [OF b True] show ?thesis by (rule bodyOf_fields)
  next
    case False
    then have 1: "entities s1 = entities s"
      by (simp add: s1_def modifyEntity_entities list_update_beyond)
    have "entities s2 ! i = entities s1 ! i"
    proof (cases "i = j")
      case True
      then show ?thesis using False 1 by (simp add: s2_def modifyEntity_entities list_update_beyond)
    next
      case False
      then show ?thesis by (simp add: s2_def)
    qed
    then show ?thesis using 1 by (simp add: s3_def)
  qed
  have sc: "score s3 = score s" by (simp add: s3_def s2_def s1_def)
  show ?thesis
    using v sc
    by (simp add: hitByProjectile_def Let_def s1_def [symmetric] s2_def [symmetric] s3_def [symmetric])
qed

text \<open>
  Claim C9 (score monotonicity). Across any sequence of simulation steps the score does
  not go down, from any state whose entities award scores that are not negative; so it is
  along every run of the host from the state at mount. The one place that changes the
  score adds the \<open>scoreValue\<close> of the enemy that was hit, and the entities the engine
  creates have \<open>scoreValue\<close> 100 (enemies) and 0 (projectiles).
\<close>

theorem C9_score_monotone:
  "(scoresNonneg s \<longrightarrow>
      scoresNonneg (fold (update e pr) dts s) \<and> score s \<le> score (fold (update e pr) dts s))
   \<and> scoresNonneg (run e pr evs initialState)
   \<and> score (run e pr evs initialState) \<le> score (run e pr (evs @ later) initialState)
   \<and> scoreValue (last (entities (spawnEnemy e c s))) = 100
   \<and> scoreValue (newProjectile r p q b) = 0
   \<and> (score (hitByProjectile e i j s) = score s
        \<or> score (hitByProjectile e i j s) = score s + scoreValue (entities s ! i))"
proof -
  have 1: "scoresNonneg (run e pr evs initialState)"
    using run_scores [OF initial_scores] by simp
  have 2: "score (run e pr evs initialState) \<le> score (run e pr (evs @ later) initialState)"
    using run_scores [OF 1, of e pr later] by (simp add: run_append)
  have 3: "scoreValue (last (entities (spawnEnemy e c s))) = 100"
    by (simp add: spawnEnemy_def Let_def)
  show ?thesis
    using steps_scores [of s e pr dts] 1 2 3 hitByProjectile_score_cases [of e i j s]
    by simp
qed

theorem C9_score_monotone_witness:
  "scoresNonneg skirmish
   \<and> score skirmish \<le> score (fold (update exampleEnv exampleProps) [16, 16] skirmish)"
proof -
  have "scoresNonneg skirmish"
    by (simp add: scoresNonneg_def skirmish_def initialState_def bolt_def raider_def)
  then show ?thesis
    using C9_score_monotone [of skirmish exampleEnv exampleProps "[16, 16]"] by blast
qed

section \<open>Firing\<close>

lemma fireStage_fired:
  assumes "wall e (clockCalls s) - lastFireTime s > 100"
  shows "entities (fireStage e pr s) =
           entities s @ [newProjectile (rand e (randCalls s)) (position (player s))
             (unprojectVector (in_x (input s)) (in_y (input s)) 400 (width pr) (height pr)) True]"
    and "lastFireTime (fireStage e pr s) = wall e (clockCalls s + 1)"
  using assms by (simp_all add: fireStage_def Let_def FIRE_RATE_def AIM_DISTANCE_def spawnProjectile_def)

lemma fireStage_held:
  assumes "wall e (clockCalls s) - lastFireTime s \<le> 100"
  shows "entities (fireStage e pr s) = entities s"
    and "lastFireTime (fireStage e pr s) = lastFireTime s"
  using assms by (simp_all add: fireStage_def Let_def FIRE_RATE_def)

lemma fireStage_ignores:
  "entities (fireStage e pr (s\<lparr>keys := k\<rparr>)) = entities (fireStage e pr s)"
  "entities (fireStage e pr (s\<lparr>reticle := r\<rparr>)) = entities (fireStage e pr s)"
  "entities (fireStage e pr (s\<lparr>input := (input s)\<lparr>in_active := b\<rparr>\<rparr>)) = entities (fireStage e pr s)"
  by (simp_all add: fireStage_def Let_def spawnProjectile_def)

lemma newProjectile_velocity:
  fixes p q :: vector3
  defines "dx \<equiv> v3x q - v3x p" and "dy \<equiv> v3y q - v3y p" and "dz \<equiv> v3z q - v3z p"
  defines "len \<equiv> sqrt (dx * dx + dy * dy + dz * dz)"
  shows "velocity (newProjectile r p q True) =
           \<lparr>v3x = (dx / len) * 6, v3y = (dy / len) * 6, v3z = (dz / len) * 6\<rparr>"
    and "len \<noteq> 0 \<Longrightarrow>
           (v3x (velocity (newProjectile r p q True)))\<^sup>2
           + (v3y (velocity (newProjectile r p q True)))\<^sup>2
           + (v3z (velocity (newProjectile r p q True)))\<^sup>2 = 6\<^sup>2"
proof -
  show v: "velocity (newProjectile r p q True) =
           \<lparr>v3x = (dx / len) * 6, v3y = (dy / len) * 6, v3z = (dz / len) * 6\<rparr>"
    by (simp add: newProjectile_def Let_def dx_def dy_def dz_def len_def)
  assume nz: "len \<noteq> 0"
  have nn: "0 \<le> dx * dx + dy * dy + dz * dz" by simp
  have d2: "len\<^sup>2 = dx * dx + dy * dy + dz * dz"
    unfolding len_def using nn by (rule real_sqrt_pow2)
  have "((dx / len) * 6)\<^sup>2 + ((dy / len) * 6)\<^sup>2 + ((dz / len) * 6)\<^sup>2
      = 36 * ((dx * dx + dy * dy + dz * dz) / len\<^sup>2)"
    by (simp add: power2_eq_square add_divide_distrib)
  also have "\<dots> = 36" using nz by (simp add: d2 [symmetric])
  finally show "(v3x (velocity (newProjectile r p q True)))\<^sup>2
           + (v3y (velocity (newProjectile r p q True)))\<^sup>2
           + (v3z (velocity (newProjectile r p q True)))\<^sup>2 = 6\<^sup>2"
    by (simp add: v)
qed

lemma prePass_to_fire:
  fixes e pr s
  defines "s4 \<equiv> spawnStage e pr (thrusterStage e (shipStage pr (reticleStage s)))"
  shows "prePass e pr s = fireStage e pr s4"
    and "input s4 = input s"
    and "lastFireTime s4 = lastFireTime s"
    and "clockCalls s4 = clockCalls s"
    and "player s4 = player (shipStage pr s)"
proof -
  show "prePass e pr s = fireStage e pr s4" by (simp add: prePass_def s4_def)
  have "shell s4 = shell s" by (simp add: s4_def)
  from shell_fields(7) [OF this] show "input s4 = input s" .
  show "lastFireTime s4 = lastFireTime s" by (simp add: s4_def)
  show "clockCalls s4 = clockCalls s" by (simp add: s4_def)
  have "player s4 = player (shipStage pr (reticleStage s))" by (simp add: s4_def)
  also have "\<dots> = player (shipStage pr s)" by (simp add: shipStage_def Let_def)
  finally show "player s4 = player (shipStage pr s)" .
qed

text \<open>
  Claim C6 (autofire behind the rate gate), as the code has it. The gate is strict: a
  shot is fired in a simulation step exactly when more than 100 ms of wall time have
  passed since the last one, whatever the keys and the lagged reticle are. Then exactly
  one player projectile is appended, starting 5 units ahead of the ship, with velocity 6
  times the normalized vector from the ship to the unprojection of the raw input at
  world \<open>z = 400\<close>, and the time of the shot is stamped. When at most 100 ms have passed,
  the store is left as it is.
\<close>

theorem C6_autofire:
  fixes e :: env and pr :: props and s :: state and k r b
  defines "elapsed \<equiv> wall e (clockCalls s) - lastFireTime s"
  defines "ship \<equiv> position (player s)"
  defines "aim \<equiv> unprojectVector (in_x (input s)) (in_y (input s)) 400 (width pr) (height pr)"
  defines "len \<equiv> sqrt ((v3x aim - v3x ship) * (v3x aim - v3x ship)
                        + (v3y aim - v3y ship) * (v3y aim - v3y ship)
                        + (v3z aim - v3z ship) * (v3z aim - v3z ship))"
  defines "shot \<equiv> newProjectile (rand e (randCalls s)) ship aim True"
  shows "(elapsed > 100 \<longrightarrow>
            entities (fireStage e pr s) = entities s @ [shot]
            \<and> lastFireTime (fireStage e pr s) = wall e (clockCalls s + 1))
       \<and> (elapsed \<le> 100 \<longrightarrow>
            entities (fireStage e pr s) = entities s
            \<and> lastFireTime (fireStage e pr s) = lastFireTime s)
       \<and> etype shot = PROJECTILE_Player \<and> active shot
       \<and> position shot = ship\<lparr>v3z := v3z ship + 5\<rparr>
       \<and> velocity shot = \<lparr>v3x = ((v3x aim - v3x ship) / len) * 6,
                           v3y = ((v3y aim - v3y ship) / len) * 6,
                           v3z = ((v3z aim - v3z ship) / len) * 6\<rparr>
       \<and> (len \<noteq> 0 \<longrightarrow>
            (v3x (velocity shot))\<^sup>2 + (v3y (velocity shot))\<^sup>2 + (v3z (velocity shot))\<^sup>2 = 6\<^sup>2)
       \<and> entities (fireStage e pr (s\<lparr>keys := k\<rparr>)) = entities (fireStage e pr s)
       \<and> entities (fireStage e pr (s\<lparr>reticle := r\<rparr>)) = entities (fireStage e pr s)
       \<and> entities (fireStage e pr (s\<lparr>input := (input s)\<lparr>in_active := b\<rparr>\<rparr>))
            = entities (fireStage e pr s)
       \<and> prePass e pr s =
            fireStage e pr (spawnStage e pr (thrusterStage e (shipStage pr (reticleStage s))))"
proof -
  have 1: "elapsed > 100 \<longrightarrow>
            entities (fireStage e pr s) = entities s @ [shot]
            \<and> lastFireTime (fireStage e pr s) = wall e (clockCalls s + 1)"
    using fireStage_fired [of e s pr] by (simp add: elapsed_def shot_def ship_def aim_def)
  have 2: "elapsed \<le> 100 \<longrightarrow>
            entities (fireStage e pr s) = entities s
            \<and> lastFireTime (fireStage e pr s) = lastFireTime s"
    using fireStage_held [of e s pr] by (simp add: elapsed_def)
  have 3: "velocity shot = \<lparr>v3x = ((v3x aim - v3x ship) / len) * 6,
                           v3y = ((v3y aim - v3y ship) / len) * 6,
                           v3z = ((v3z aim - v3z ship) / len) * 6\<rparr>"
    unfolding shot_def len_def by (rule newProjectile_velocity(1))
  have 4: "len \<noteq> 0 \<longrightarrow>
            (v3x (velocity shot))\<^sup>2 + (v3y (velocity shot))\<^sup>2 + (v3z (velocity shot))\<^sup>2 = 6\<^sup>2"
    unfolding shot_def len_def
    using newProjectile_velocity(2) [where p = ship and q = aim and r = "rand e (randCalls s)"]
    by blast
  have 5: "etype shot = PROJECTILE_Player \<and> active shot
       \<and> position shot = ship\<lparr>v3z := v3z ship + 5\<rparr>"
    by (simp add: shot_def)
  have 6: "prePass e pr s =
            fireStage e pr (spawnStage e pr (thrusterStage e (shipStage pr (reticleStage s))))"
    by (simp add: prePass_def)
  show ?thesis
    using 1 2 3 4 5 6 fireStage_ignores [where e = e and pr = pr and s = s] by simp
qed

theorem C6_autofire_witness:
  "length (entities (fireStage exampleEnv exampleProps initialState)) = 1
   \<and> lastFireTime (fireStage exampleEnv exampleProps initialState) = 5000
   \<and> entities (fireStage exampleEnv exampleProps lastStand) = [enemyShot, enemyShot]"
proof -
  have a: "wall exampleEnv (clockCalls initialState) - lastFireTime initialState > 100"
    by (simp add: exampleEnv_def initialState_def)
  have b: "wall exampleEnv (clockCalls lastStand) - lastFireTime lastStand \<le> 100"
    by (simp add: exampleEnv_def lastStand_def initialState_def)
  have c: "entities initialState = []" "entities lastStand = [enemyShot, enemyShot]"
    by (simp_all add: initialState_def lastStand_def)
  have d: "wall exampleEnv n = 5000" for n by (simp add: exampleEnv_def)
  show ?thesis
    using C6_autofire [where e = exampleEnv and s = initialState and pr = exampleProps] a
      C6_autofire [where e = exampleEnv and s = lastStand and pr = exampleProps] b
    by (simp add: c d)
qed

theorem C6_counterexample:
  "wall exampleEnv (clockCalls reloading) - lastFireTime reloading = 100
   \<and> entities (fireStage exampleEnv exampleProps reloading) = []
   \<and> entities (update exampleEnv exampleProps 16 reloading) = []"
proof -
  have a: "wall exampleEnv (clockCalls reloading) - lastFireTime reloading = 100"
    by (simp add: exampleEnv_def reloading_def initialState_def)
  have b: "entities (fireStage exampleEnv exampleProps reloading) = []"
    using fireStage_held(1) [of exampleEnv reloading exampleProps] a
    by (simp add: reloading_def initialState_def)
  note p = prePass_to_fire [of exampleEnv exampleProps reloading]
  let ?s4 = "spawnStage exampleEnv exampleProps
      (thrusterStage exampleEnv (shipStage exampleProps (reticleStage reloading)))"
  have g: "gameTime (thrusterStage exampleEnv (shipStage exampleProps (reticleStage reloading))) = 0"
    using shell_fields(6) [of "thrusterStage exampleEnv (shipStage exampleProps (reticleStage reloading))" reloading]
    by (simp add: reloading_def initialState_def)
  have e4: "entities ?s4 = []"
    using g by (simp add: spawnStage_def reloading_def initialState_def)
  have "wall exampleEnv (clockCalls ?s4) - lastFireTime ?s4 \<le> 100"
    using a by (simp add: p(3,4))
  from fireStage_held(1) [OF this] have "entities (prePass exampleEnv exampleProps reloading) = []"
    by (simp add: p(1) e4)
  then have c: "entities (update exampleEnv exampleProps 16 reloading) = []"
    by (simp add: update_stages entityPass_def)
  show ?thesis using a b c by simp
qed

section \<open>The end of a session\<close>

lemma hostStep_unscheduled:
  assumes "\<not> frameRequested s"
  shows "world (hostStep e pr ev s) = world s"
  using assms by (cases ev) (simp_all add: world_def handleMove_def Let_def)

lemma run_unscheduled:
  assumes "\<not> frameRequested s"
  shows "world (run e pr evs s) = world s"
  using assms
proof (induction evs arbitrary: s)
  case Nil
  then show ?case by (simp add: run_def)
next
  case (Cons ev evs)
  have w: "world (hostStep e pr ev s) = world s"
    using Cons.prems by (rule hostStep_unscheduled)
  then have "\<not> frameRequested (hostStep e pr ev s)"
    using Cons.prems by (simp add: world_def)
  from Cons.IH [OF this] w show ?case by (simp add: run_def)
qed

lemma update_health: "health (player (update e pr dt s)) \<le> health (player s)"
  using visits_health [of e dt "scrollSpeedOf pr dt" "[0 ..< length (entities (prePass e pr s))]" "prePass e pr s"]
  by (simp add: update_stages entityPass_def)

lemma stepped_health: "health (player (stepped e pr t s)) \<le> health (player s)"
  using update_health [of e pr "deltaTimeOf t s"
      "s\<lparr>frameRequested := False, lastTime := t, gameTime := gameTime s + deltaTimeOf t s\<rparr>"]
  by (simp add: stepped_def)

lemma newEvents_append: "emitted s' = emitted s @ evs \<Longrightarrow> newEvents s s' = evs"
  by (simp add: newEvents_def)

lemma animate_newEvents:
  "newEvents s (animate e pr t s) =
     (if paused pr then [Render]
      else [Render]
        @ (if score (stepped e pr t s) \<noteq> lastReportedScore s
           then [ScoreUpdate (score (stepped e pr t s))] else [])
        @ (if ceilHealth (stepped e pr t s) \<noteq> lastReportedHealth s
           then [HealthUpdate (ceilHealth (stepped e pr t s))] else [])
        @ (if health (player (stepped e pr t s)) > 0 then []
           else [GameOver (score (stepped e pr t s))]))"
proof (cases "paused pr")
  case True
  then show ?thesis by (intro newEvents_append) (simp add: animate_paused(1))
next
  case False
  show ?thesis
    using False by (intro newEvents_append) (simp add: animate_unpaused(1))
qed

lemma animate_gameOver:
  assumes "\<not> paused pr"
  shows "filter isGameOver (newEvents s (animate e pr t s)) =
           (if health (player (stepped e pr t s)) > 0 then []
            else [GameOver (score (stepped e pr t s))])"
    and "filter (\<lambda>ev. ev = Render) (newEvents s (animate e pr t s)) = [Render]"
    and "filter isHealthUpdate (newEvents s (animate e pr t s)) =
           (if ceilHealth (stepped e pr t s) \<noteq> lastReportedHealth s
            then [HealthUpdate (ceilHealth (stepped e pr t s))] else [])"
  using assms by (simp_all add: animate_newEvents)

lemma animate_paused_events:
  assumes "paused pr"
  shows "filter isGameOver (newEvents s (animate e pr t s)) = []"
    and "filter isHealthUpdate (newEvents s (animate e pr t s)) = []"
  using assms by (simp_all add: animate_newEvents)

lemma animate_emitted_split:
  "emitted (animate e pr t s) = emitted s @ newEvents s (animate e pr t s)"
proof (cases "paused pr")
  case True
  then show ?thesis by (simp add: animate_newEvents animate_paused(1))
next
  case False
  then show ?thesis by (simp add: animate_newEvents animate_unpaused(1))
qed

text \<open>Along a run, a game over is in the log only when no frame is scheduled, and once.\<close>

lemma hostStep_gameOver_once:
  assumes "length (filter isGameOver (emitted s)) \<le> 1"
    and "frameRequested s \<longrightarrow> filter isGameOver (emitted s) = []"
  shows "length (filter isGameOver (emitted (hostStep e pr ev s))) \<le> 1
       \<and> (frameRequested (hostStep e pr ev s) \<longrightarrow> filter isGameOver (emitted (hostStep e pr ev s)) = [])"
proof (cases ev)
  case (Frame t)
  show ?thesis
  proof (cases "frameRequested s")
    case req: True
    then have none: "filter isGameOver (emitted s) = []" using assms(2) by simp
    show ?thesis
    proof (cases "paused pr")
      case True
      then show ?thesis
        using Frame req none animate_paused_events(1) [OF True, of s e t]
        by (simp add: animate_emitted_split [of e pr t s])
    next
      case False
      then show ?thesis
        using Frame req none animate_gameOver(1) [OF False, of s e t]
          animate_unpaused(2) [OF False, of e t s]
        by (simp add: animate_emitted_split [of e pr t s])
    qed
  next
    case False
    then show ?thesis using Frame assms by simp
  qed
next
  case (PointerMove x y)
  then show ?thesis using assms by (simp add: handleMove_def Let_def)
next
  case (KeyDown k)
  then show ?thesis using assms by simp
next
  case (KeyUp k)
  then show ?thesis using assms by simp
qed

lemma run_gameOver_once:
  assumes "length (filter isGameOver (emitted s)) \<le> 1"
    and "frameRequested s \<longrightarrow> filter isGameOver (emitted s) = []"
  shows "length (filter isGameOver (emitted (run e pr evs s))) \<le> 1"
  using assms
proof (induction evs arbitrary: s)
  case Nil
  then show ?case by (simp add: run_def)
next
  case (Cons ev evs)
  note h = hostStep_gameOver_once [OF Cons.prems, of e pr ev]
  from Cons.IH [of "hostStep e pr ev s"] h show ?case by (simp add: run_def)
qed

section \<open>A concrete last frame\<close>

text \<open>With the pointer at the centre, the ship at the origin stays on the axis and rises a little.\<close>

lemma unproject_centre_height:
  "8 < v3y (unprojectVector 0 0 0 W H) \<and> v3y (unprojectVector 0 0 0 W H) < 15"
proof -
  define c where "c = cos CAMERA_PITCH"
  define s where "s = sin CAMERA_PITCH"
  define t where "t = tan CAMERA_PITCH"
  have c: "1/2 < c" "c \<le> 1" using cos_pitch_lb by (simp_all add: c_def)
  have s: "0 < s" "s \<le> 1/5" using sin_pitch_pos sin_pitch_ub by (simp_all add: s_def)
  have t: "0 < t" "t < 2/5" using tan_pitch_bounds by (simp_all add: t_def)
  have st0: "0 < s * t" using s t by simp
  have st1: "s * t < (1/5) * (2/5)"
    using s t by (intro mult_le_less_imp_less) simp_all
  note st = st0 st1
  define q where "q = s * t + c"
  have q: "0 < q" "q < 27/25" using st c by (simp_all add: q_def)
  have qs0: "0 < q * s" using q s by simp
  have qs1: "q * s < (27/25) * (1/5)"
    using q s by (intro mult_less_le_imp_less) simp_all
  note qs = qs0 qs1
  have "v3y (unprojectVector 0 0 0 W H) = 30 * (q * s) + 8"
    by (simp add: unprojectVector_def Let_def CAMERA_POS_def FOV_def q_def s_def t_def c_def)
  then show ?thesis using qs by simp
qed

lemma shipStage_centered:
  assumes "in_x (input s) = 0" and "in_y (input s) = 0"
    and "position (player s) = \<lparr>v3x = 0, v3y = 0, v3z = 0\<rparr>"
  shows "\<exists>y. - 1 < y \<and> y < 2
           \<and> position (player (shipStage pr s)) = \<lparr>v3x = 0, v3y = y, v3z = 0\<rparr>"
proof -
  define xLimit where "xLimit = max 10 (v3x (unprojectVector 1 0 0 (width pr) (height pr)) - SHIP_MARGIN)"
  define yMax where "yMax = v3y (unprojectVector 0 (- 1) 0 (width pr) (height pr)) - 3"
  define m where "m = unprojectVector 0 0 0 (width pr) (height pr)"
  define targetX where "targetX = max (- xLimit) (min xLimit (v3x m))"
  define targetY where "targetY = max (FLOOR_Y + 1) (min yMax (v3y m))"
  have mx: "v3x m = 0"
    by (simp add: m_def unprojectVector_def Let_def CAMERA_POS_def)
  have "10 \<le> xLimit" by (simp add: xLimit_def)
  then have tx: "targetX = 0" by (simp add: targetX_def mx)
  have my: "8 < v3y m" "v3y m < 15"
    using unproject_centre_height [of "width pr" "height pr"] by (simp_all add: m_def)
  have ty: "- 5 \<le> targetY" "targetY < 15"
    using my by (auto simp: targetY_def FLOOR_Y_def)
  have "position (player (shipStage pr s)) = \<lparr>v3x = 0, v3y = targetY * SHIP_LAG, v3z = 0\<rparr>"
    using assms tx
    by (simp add: shipStage_def Let_def xLimit_def [symmetric] yMax_def [symmetric]
        m_def [symmetric] targetX_def [symmetric] targetY_def [symmetric])
  moreover have "- 1 < targetY * SHIP_LAG" "targetY * SHIP_LAG < 2"
    using ty by (simp_all add: SHIP_LAG_def)
  ultimately show ?thesis by blast
qed

text \<open>The visit of an enemy projectile that stays in the world and reaches the ship.\<close>

lemma updateEntity_enemy_projectile_hit:
  fixes e dt sp i s
  defines "z' \<equiv> v3z (position (entities s ! i)) - 2.0 * (dt / 16)"
  assumes i: "i < length (entities s)" and ty: "etype (entities s ! i) = PROJECTILE_Enemy"
    and act: "active (entities s ! i)"
    and inside: "- 40 \<le> z'" "z' \<le> 500"
    and hit: "checkCollision (position (player s)) (radius (player s))
                ((position (entities s ! i))\<lparr>v3z := z'\<rparr>) (radius (entities s ! i))"
  shows "health (player (updateEntity e dt sp i s)) = health (player s) - 10"
    and "score (updateEntity e dt sp i s) = score s"
    and "length (entities (updateEntity e dt sp i s)) = length (entities s)"
    and "k \<noteq> i \<Longrightarrow> entities (updateEntity e dt sp i s) ! k = entities s ! k"
proof -
  define m where "m = moveEntity e dt sp i s"
  have m_eq: "m = modifyEntity i (\<lambda>a. a\<lparr>position :=
                (position a)\<lparr>v3z := v3z (position a) - 2.0 * (dt / 16)\<rparr>\<rparr>) s"
    unfolding m_def using ty by (rule moveEntity_enemy_projectile)
  have mi: "entities m ! i = (entities s ! i)\<lparr>position := (position (entities s ! i))\<lparr>v3z := z'\<rparr>\<rparr>"
    using i by (simp add: m_eq z'_def)
  have mp: "player m = player s" "score m = score s" "length (entities m) = length (entities s)"
    by (simp_all add: m_eq)
  have mk: "k \<noteq> i \<Longrightarrow> entities m ! k = entities s ! k" for k
    by (simp add: m_eq)
  have cull: "cullEntity i m = m"
    using inside by (simp add: cullEntity_def Let_def mi)
  have enemy: "collideEnemy e i m = m"
    using ty by (simp add: collideEnemy_def Let_def mi)
  have upd: "updateEntity e dt sp i s = collideEnemyProjectile e i m"
    using act by (simp add: updateEntity_def m_def [symmetric] cull enemy)
  have cond: "etype (entities m ! i) = PROJECTILE_Enemy \<and> active (entities m ! i)
      \<and> checkCollision (position (player m)) (radius (player m)) (position (entities m ! i)) (radius (entities m ! i))"
    using ty act hit by (simp add: mi mp)
  show "health (player (updateEntity e dt sp i s)) = health (player s) - 10"
    using cond by (simp add: upd collideEnemyProjectile_def Let_def mp)
  show "score (updateEntity e dt sp i s) = score s"
    by (simp add: upd mp)
  show "length (entities (updateEntity e dt sp i s)) = length (entities s)"
    by (simp add: upd mp)
  show "entities (updateEntity e dt sp i s) ! k = entities s ! k" if "k \<noteq> i"
    using that by (simp add: upd collideEnemyProjectile_other mk)
qed

lemma upt_0_2: "[0 ..< 2] = [0, 1]"
  by (simp add: upt_rec)

lemma lastStand_prePass:
  fixes t :: real
  defines "s0 \<equiv> lastStand\<lparr>frameRequested := False, lastTime := t, gameTime := 1016\<rparr>"
  defines "pp \<equiv> prePass exampleEnv exampleProps s0"
  shows "entities pp = [enemyShot, enemyShot]"
    and "health (player pp) = 10"
    and "radius (player pp) = 3"
    and "score pp = 0"
    and "\<exists>y. - 1 < y \<and> y < 2 \<and> position (player pp) = \<lparr>v3x = 0, v3y = y, v3z = 0\<rparr>"
proof -
  note p = prePass_to_fire [of exampleEnv exampleProps s0]
  let ?s3 = "thrusterStage exampleEnv (shipStage exampleProps (reticleStage s0))"
  let ?s4 = "spawnStage exampleEnv exampleProps ?s3"
  have "shell ?s3 = shell s0" by simp
  from shell_fields(6) [OF this] have g: "gameTime ?s3 = 1016" by (simp add: s0_def)
  have e4: "entities ?s4 = [enemyShot, enemyShot]"
    using g by (simp add: spawnStage_def s0_def lastStand_def)
  have "wall exampleEnv (clockCalls ?s4) - lastFireTime ?s4 \<le> 100"
    by (simp add: p(3) exampleEnv_def s0_def lastStand_def initialState_def)
  from fireStage_held(1) [OF this] show "entities pp = [enemyShot, enemyShot]"
    by (simp add: pp_def p(1) e4)
  show "health (player pp) = 10"
    by (simp add: pp_def s0_def lastStand_def)
  show "radius (player pp) = 3"
    by (simp add: pp_def s0_def lastStand_def initialPlayer_def)
  show "score pp = 0"
    by (simp add: pp_def s0_def lastStand_def initialState_def)
  have "\<exists>y. - 1 < y \<and> y < 2
      \<and> position (player (shipStage exampleProps s0)) = \<lparr>v3x = 0, v3y = y, v3z = 0\<rparr>"
    by (rule shipStage_centered)
      (simp_all add: s0_def lastStand_def initialState_def initialPlayer_def)
  then show "\<exists>y. - 1 < y \<and> y < 2 \<and> position (player pp) = \<lparr>v3x = 0, v3y = y, v3z = 0\<rparr>"
    by (simp add: pp_def)
qed

lemma lastStand_step:
  "health (player (stepped exampleEnv exampleProps 1016 lastStand)) = - 10"
  "score (stepped exampleEnv exampleProps 1016 lastStand) = 0"
proof -
  define s0 where "s0 = lastStand\<lparr>frameRequested := False, lastTime := 1016, gameTime := 1016\<rparr>"
  define pp where "pp = prePass exampleEnv exampleProps s0"
  define sp where "sp = scrollSpeedOf exampleProps 16"
  note f = lastStand_prePass [of 1016, folded s0_def, folded pp_def]
  obtain y where y: "- 1 < y" "y < 2" and pos: "position (player pp) = \<lparr>v3x = 0, v3y = y, v3z = 0\<rparr>"
    using f(5) by blast
  have "\<bar>y\<bar> < 5" using y by simp
  then have "\<bar>y\<bar> * \<bar>y\<bar> < 5 * 5" by (intro mult_strict_mono) simp_all
  then have yy: "y * y < 25" by simp
  have dt: "deltaTimeOf 1016 lastStand = 16"
    by (simp add: deltaTimeOf_def lastStand_def)
  have gt: "gameTime lastStand = 1000"
    by (simp add: lastStand_def)
  have st: "stepped exampleEnv exampleProps 1016 lastStand =
      particleStage 16 (compactStage (entityPass exampleEnv 16 sp pp))"
    by (simp add: stepped_def dt update_stages pp_def s0_def sp_def gt)
  define a where "a = updateEntity exampleEnv 16 sp 0 pp"
  define b where "b = updateEntity exampleEnv 16 sp 1 a"
  have pass: "entityPass exampleEnv 16 sp pp = b"
    by (simp add: entityPass_def f(1) upt_0_2 a_def b_def)
  have a: "health (player a) = 0" "score a = 0" "length (entities a) = 2"
      "entities a ! Suc 0 = enemyShot" "position (player a) = position (player pp)"
      "radius (player a) = 3"
    unfolding a_def
    using updateEntity_enemy_projectile_hit [where i = 0 and s = pp and dt = 16
        and e = exampleEnv and sp = sp] yy
    by (simp_all add: f pos enemyShot_def checkCollision_def Let_def)
  have b: "health (player b) = - 10" "score b = 0"
    unfolding b_def
    using updateEntity_enemy_projectile_hit [where i = 1 and s = a and dt = 16
        and e = exampleEnv and sp = sp] yy
    by (simp_all add: a pos enemyShot_def checkCollision_def Let_def)
  show "health (player (stepped exampleEnv exampleProps 1016 lastStand)) = - 10"
    by (simp add: st pass b)
  show "score (stepped exampleEnv exampleProps 1016 lastStand) = 0"
    by (simp add: st pass b)
qed

section \<open>Terminal semantics and the health reports\<close>

text \<open>
  Claim C3 (terminal semantics), as the code has it. In a frame that is not paused, once
  the simulation step leaves the player's health at or below zero, the frame still
  renders, emits exactly one game-over notification carrying the score of that frame, and
  schedules no further frame: whatever the host delivers afterwards, neither the
  simulation step nor the renderer runs again and nothing more is emitted. While the
  health stays above zero, no game over is emitted and the next frame is scheduled. Along
  a run from the state at mount at most one game over is emitted.
\<close>

theorem C3_terminal:
  fixes e :: env and pr :: props and t :: real and s :: state and evs evs' :: "host_event list"
  defines "u \<equiv> stepped e pr t s"
  defines "s' \<equiv> hostStep e pr (Frame t) s"
  assumes unpaused: "\<not> paused pr" and scheduled: "frameRequested s"
  shows "(health (player u) \<le> 0 \<longrightarrow>
            filter isGameOver (newEvents s s') = [GameOver (score u)]
            \<and> filter (\<lambda>ev. ev = Render) (newEvents s s') = [Render]
            \<and> \<not> frameRequested s'
            \<and> world (run e pr evs s') = world s')
       \<and> (0 < health (player u) \<longrightarrow>
            filter isGameOver (newEvents s s') = [] \<and> frameRequested s')
       \<and> length (filter isGameOver (emitted (run e pr evs' initialState))) \<le> 1"
proof -
  have s': "s' = animate e pr t s" using scheduled by (simp add: s'_def)
  note go = animate_gameOver [OF unpaused, of s e t, folded s' u_def]
  have fr: "frameRequested s' = (0 < health (player u))"
    unfolding s' u_def by (rule animate_unpaused(2) [OF unpaused])
  have frozen: "world (run e pr evs s') = world s'" if "health (player u) \<le> 0"
    using that fr by (intro run_unscheduled) simp
  have once: "length (filter isGameOver (emitted (run e pr evs' initialState))) \<le> 1"
    by (rule run_gameOver_once) (simp_all add: initialState_def)
  show ?thesis
    using go(1,2) fr frozen once by auto
qed

theorem C3_terminal_witness:
  "filter isGameOver (newEvents lastStand (hostStep exampleEnv exampleProps (Frame 1016) lastStand))
     = [GameOver 0]
   \<and> \<not> frameRequested (hostStep exampleEnv exampleProps (Frame 1016) lastStand)
   \<and> world (run exampleEnv exampleProps [Frame 1032, PointerMove 10 10]
              (hostStep exampleEnv exampleProps (Frame 1016) lastStand))
       = world (hostStep exampleEnv exampleProps (Frame 1016) lastStand)"
proof -
  have 1: "\<not> paused exampleProps" by (simp add: exampleProps_def)
  have 2: "frameRequested lastStand" by (simp add: lastStand_def initialState_def)
  show ?thesis
    using C3_terminal [OF 1 2, of exampleEnv 1016 "[Frame 1032, PointerMove 10 10]"]
    by (simp add: lastStand_step)
qed

theorem C3_counterexample:
  "health (player (run exampleEnv exampleProps [Frame 1016] lastStand)) \<le> 0
   \<and> renders (run exampleEnv exampleProps [Frame 1016, Frame 1032, Frame 1048] lastStand) = 1"
proof -
  have 1: "\<not> paused exampleProps" by (simp add: exampleProps_def)
  have 2: "frameRequested lastStand" by (simp add: lastStand_def initialState_def)
  define s' where "s' = animate exampleEnv exampleProps 1016 lastStand"
  have r1: "run exampleEnv exampleProps [Frame 1016] lastStand = s'"
    using 2 by (simp add: run_def s'_def)
  have h: "health (player s') = - 10"
    unfolding s'_def by (simp add: animate_unpaused(3) [OF 1] lastStand_step)
  have nf: "\<not> frameRequested s'"
    unfolding s'_def by (simp add: animate_unpaused(2) [OF 1] lastStand_step)
  have em: "emitted s' = [Render, HealthUpdate (- 10), GameOver 0]"
    unfolding s'_def
    by (simp add: animate_unpaused(1) [OF 1] lastStand_step ceilHealth_def)
      (simp add: lastStand_def initialState_def)
  have "run exampleEnv exampleProps [Frame 1016, Frame 1032, Frame 1048] lastStand
      = run exampleEnv exampleProps [Frame 1032, Frame 1048] s'"
    using 2 by (simp add: run_def s'_def)
  moreover have "world (run exampleEnv exampleProps [Frame 1032, Frame 1048] s') = world s'"
    using nf by (rule run_unscheduled)
  ultimately have "emitted (run exampleEnv exampleProps [Frame 1016, Frame 1032, Frame 1048] lastStand)
      = emitted s'"
    by (simp add: world_def)
  then have "renders (run exampleEnv exampleProps [Frame 1016, Frame 1032, Frame 1048] lastStand) = 1"
    by (simp add: renders_def em)
  then show ?thesis using h by (simp add: r1)
qed

lemma ceil_report_ok:
  assumes "h \<le> (100 :: real)"
  shows "healthReportOk (HealthUpdate (of_int \<lceil>h\<rceil>))"
proof -
  have "\<lceil>h\<rceil> \<le> 100" using assms by (simp add: ceiling_le_iff)
  then have "(of_int \<lceil>h\<rceil> :: real) \<le> 100" by simp
  then show ?thesis by simp
qed

lemma hostStep_health_reports:
  assumes "health (player s) \<le> 100" and "list_all healthReportOk (emitted s)"
  shows "health (player (hostStep e pr ev s)) \<le> 100
       \<and> list_all healthReportOk (emitted (hostStep e pr ev s))"
proof (cases ev)
  case (Frame t)
  show ?thesis
  proof (cases "frameRequested s")
    case req: True
    show ?thesis
    proof (cases "paused pr")
      case True
      then show ?thesis
        using Frame req assms by (simp add: animate_paused(1,3))
    next
      case False
      have h: "health (player (stepped e pr t s)) \<le> 100"
        using stepped_health [of e pr t s] assms(1) by simp
      have "healthReportOk (HealthUpdate (ceilHealth (stepped e pr t s)))"
        unfolding ceilHealth_def using h by (rule ceil_report_ok)
      then show ?thesis
        using Frame req assms(2) h False
        by (simp add: animate_unpaused(1) [OF False] animate_unpaused(3) [OF False])
    qed
  next
    case False
    then show ?thesis using Frame assms by simp
  qed
next
  case (PointerMove x y)
  then show ?thesis using assms by (simp add: handleMove_def Let_def)
next
  case (KeyDown k)
  then show ?thesis using assms by simp
next
  case (KeyUp k)
  then show ?thesis using assms by simp
qed

lemma run_health_reports:
  assumes "health (player s) \<le> 100" and "list_all healthReportOk (emitted s)"
  shows "list_all healthReportOk (emitted (run e pr evs s))"
  using assms
proof (induction evs arbitrary: s)
  case Nil
  then show ?case by (simp add: run_def)
next
  case (Cons ev evs)
  note h = hostStep_health_reports [OF Cons.prems, of e pr ev]
  from Cons.IH [of "hostStep e pr ev s"] h show ?case by (simp add: run_def)
qed

text \<open>
  Claim C7 (health notifications), as the code has it. A frame emits at most one
  health-changed notification, and only when not paused and the ceiling of the player's
  health after the step differs from the last reported value, which it then becomes. The
  value is that ceiling, an integer; it is at most 100 when the health was at most 100
  before the frame, so every report of a run from the state at mount is an integer of at
  most 100. No lower bound holds: the health is not clamped at zero.
\<close>

theorem C7_health_notifications:
  "filter isHealthUpdate (newEvents s (animate e pr t s)) =
      (if \<not> paused pr \<and> ceilHealth (stepped e pr t s) \<noteq> lastReportedHealth s
       then [HealthUpdate (ceilHealth (stepped e pr t s))] else [])
   \<and> lastReportedHealth (animate e pr t s) =
      (if paused pr then lastReportedHealth s else ceilHealth (stepped e pr t s))
   \<and> ceilHealth (stepped e pr t s) = of_int \<lceil>health (player (stepped e pr t s))\<rceil>
   \<and> (health (player s) \<le> 100 \<longrightarrow> ceilHealth (stepped e pr t s) \<le> 100)
   \<and> list_all healthReportOk (emitted (run e pr evs initialState))"
proof -
  have 1: "filter isHealthUpdate (newEvents s (animate e pr t s)) =
      (if \<not> paused pr \<and> ceilHealth (stepped e pr t s) \<noteq> lastReportedHealth s
       then [HealthUpdate (ceilHealth (stepped e pr t s))] else [])"
    using animate_gameOver(3) [of pr s e t] animate_paused_events(2) [of pr s e t]
    by (cases "paused pr") simp_all
  have 2: "lastReportedHealth (animate e pr t s) =
      (if paused pr then lastReportedHealth s else ceilHealth (stepped e pr t s))"
    using animate_unpaused(6) [of pr e t s] animate_paused(6) [of pr e t s]
    by (cases "paused pr") simp_all
  have 3: "ceilHealth (stepped e pr t s) \<le> 100" if "health (player s) \<le> 100"
  proof -
    have "health (player (stepped e pr t s)) \<le> 100"
      using stepped_health [of e pr t s] that by simp
    then have "\<lceil>health (player (stepped e pr t s))\<rceil> \<le> 100" by (simp add: ceiling_le_iff)
    then have "(of_int \<lceil>health (player (stepped e pr t s))\<rceil> :: real) \<le> 100" by simp
    then show ?thesis by (simp add: ceilHealth_def)
  qed
  have 4: "list_all healthReportOk (emitted (run e pr evs initialState))"
    by (rule run_health_reports) (simp_all add: initialState_def initialPlayer_def)
  show ?thesis
    using 1 2 3 4 by (simp add: ceilHealth_def)
qed

theorem C7_health_notifications_witness:
  "health (player lastStand) \<le> 100
   \<and> ceilHealth (stepped exampleEnv exampleProps 1016 lastStand) \<le> 100
   \<and> filter isHealthUpdate (newEvents lastStand (animate exampleEnv exampleProps 1016 lastStand))
       = [HealthUpdate (ceilHealth (stepped exampleEnv exampleProps 1016 lastStand))]"
proof -
  have 1: "health (player lastStand) \<le> 100" by (simp add: lastStand_def)
  have 2: "\<not> paused exampleProps" by (simp add: exampleProps_def)
  have "lastReportedHealth lastStand = 10" by (simp add: lastStand_def)
  then have 3: "ceilHealth (stepped exampleEnv exampleProps 1016 lastStand) \<noteq> lastReportedHealth lastStand"
    by (simp add: ceilHealth_def lastStand_step)
  note th = C7_health_notifications [of lastStand exampleEnv exampleProps 1016 "[]"]
  from th 1 have a: "ceilHealth (stepped exampleEnv exampleProps 1016 lastStand) \<le> 100"
    by blast
  from th have "filter isHealthUpdate (newEvents lastStand (animate exampleEnv exampleProps 1016 lastStand))
      = (if \<not> paused exampleProps
            \<and> ceilHealth (stepped exampleEnv exampleProps 1016 lastStand) \<noteq> lastReportedHealth lastStand
         then [HealthUpdate (ceilHealth (stepped exampleEnv exampleProps 1016 lastStand))] else [])"
    by blast
  then have b: "filter isHealthUpdate (newEvents lastStand (animate exampleEnv exampleProps 1016 lastStand))
      = [HealthUpdate (ceilHealth (stepped exampleEnv exampleProps 1016 lastStand))]"
    using 2 3 by simp
  show ?thesis using 1 a b by blast
qed

theorem C7_counterexample:
  "emitted (animate exampleEnv exampleProps 1016 lastStand)
     = [Render, HealthUpdate (- 10), GameOver 0]"
proof -
  have 1: "\<not> paused exampleProps" by (simp add: exampleProps_def)
  show ?thesis
    by (simp add: animate_unpaused(1) [OF 1] lastStand_step ceilHealth_def)
      (simp add: lastStand_def initialState_def)
qed

section \<open>The visit of an enemy\<close>

lemma hitByProjectile_inactive_stays:
  assumes "k < length (entities s)" and "\<not> active (entities s ! k)"
  shows "\<not> active (entities (hitByProjectile e i j s) ! k)"
proof -
  define s1 where "s1 = modifyEntity i (\<lambda>a. a\<lparr>health := health a - 50\<rparr>) s"
  define s2 where "s2 = modifyEntity j (\<lambda>a. a\<lparr>active := False\<rparr>) s1"
  define s3 where "s3 = spawnExplosion e (position (entities s2 ! i)) (color (entities s2 ! i)) s2"
  have 1: "\<not> active (entities s1 ! k)"
    using assms by (cases "k = i") (simp_all add: s1_def)
  have l1: "k < length (entities s1)" using assms(1) by (simp add: s1_def)
  have 2: "\<not> active (entities s2 ! k)"
    using 1 l1 by (cases "k = j") (simp_all add: s2_def)
  have l2: "k < length (entities s2)" using l1 by (simp add: s2_def)
  have 3: "\<not> active (entities s3 ! k)" "k < length (entities s3)"
    using 2 l2 by (simp_all add: s3_def)
  have 4: "\<not> active (entities ((modifyEntity i (\<lambda>a. a\<lparr>active := False\<rparr>) s3)\<lparr>score := x\<rparr>) ! k)" for x
    using 3 by (cases "k = i") simp_all
  show ?thesis
    using assms(2) 3 4
    by (simp add: hitByProjectile_def Let_def s1_def [symmetric] s2_def [symmetric] s3_def [symmetric])
qed

lemma hits_inactive_stays:
  assumes "k < length (entities s)" and "\<not> active (entities s ! k)"
  shows "\<not> active (entities (fold (hitByProjectile e i) js s) ! k)"
  using assms
proof (induction js arbitrary: s)
  case Nil
  then show ?case by simp
next
  case (Cons j js)
  have 1: "\<not> active (entities (hitByProjectile e i j s) ! k)"
    using Cons.prems by (rule hitByProjectile_inactive_stays)
  have 2: "k < length (entities (hitByProjectile e i j s))" using Cons.prems(1) by simp
  from Cons.IH [OF 2 1] show ?case by simp
qed

lemma overlaps_body:
  assumes "map bodyOf (entities a) = map bodyOf (entities b)"
    and "i < length (entities b)" and "j < length (entities b)"
  shows "overlaps a i j = overlaps b i j"
proof -
  note bi = bodyOf_fields [OF body_nth [OF assms(1,2)]]
  note bj = bodyOf_fields [OF body_nth [OF assms(1,3)]]
  show ?thesis by (simp add: overlaps_def bi(1,2) bj(1,2))
qed

lemma hitByProjectile_target:
  assumes "i < length (entities s)" and "i \<noteq> j"
  shows "health (entities (hitByProjectile e i j s) ! i)
           = health (entities s ! i) - (if overlaps s i j then 50 else 0)"
proof -
  define s1 where "s1 = modifyEntity i (\<lambda>a. a\<lparr>health := health a - 50\<rparr>) s"
  define s2 where "s2 = modifyEntity j (\<lambda>a. a\<lparr>active := False\<rparr>) s1"
  define s3 where "s3 = spawnExplosion e (position (entities s2 ! i)) (color (entities s2 ! i)) s2"
  have 1: "health (entities s1 ! i) = health (entities s ! i) - 50"
    using assms(1) by (simp add: s1_def)
  have 2: "entities s2 ! i = entities s1 ! i" using assms(2) by (simp add: s2_def)
  have 3: "entities s3 ! i = entities s2 ! i" "i < length (entities s3)"
    using assms(1) by (simp_all add: s3_def s2_def s1_def)
  have 4: "health (entities ((modifyEntity i (\<lambda>a. a\<lparr>active := False\<rparr>) s3)\<lparr>score := x\<rparr>) ! i)
      = health (entities s3 ! i)" for x
    using 3(2) by simp
  have h3: "health (entities s3 ! i) = health (entities s ! i) - 50"
    using 1 2 3(1) by simp
  show ?thesis
    using h3 4
    by (simp add: hitByProjectile_def Let_def overlaps_def
        s1_def [symmetric] s2_def [symmetric] s3_def [symmetric])
qed

lemma hitByProjectile_consumes:
  assumes "j < length (entities s)" and "i \<noteq> j" and "overlaps s i j"
  shows "\<not> active (entities (hitByProjectile e i j s) ! j)"
proof -
  define s1 where "s1 = modifyEntity i (\<lambda>a. a\<lparr>health := health a - 50\<rparr>) s"
  define s2 where "s2 = modifyEntity j (\<lambda>a. a\<lparr>active := False\<rparr>) s1"
  define s3 where "s3 = spawnExplosion e (position (entities s2 ! i)) (color (entities s2 ! i)) s2"
  have 2: "\<not> active (entities s2 ! j)" using assms(1) by (simp add: s2_def s1_def)
  have 3: "\<not> active (entities s3 ! j)" using 2 by (simp add: s3_def)
  have 4: "\<not> active (entities ((modifyEntity i (\<lambda>a. a\<lparr>active := False\<rparr>) s3)\<lparr>score := x\<rparr>) ! j)" for x
    using 3 assms(2) by simp
  show ?thesis
    using assms(3) 3 4
    by (simp add: hitByProjectile_def Let_def overlaps_def
        s1_def [symmetric] s2_def [symmetric] s3_def [symmetric])
qed

lemma hits_target:
  assumes "i < length (entities s)" and "i \<notin> set js" and "\<forall>j \<in> set js. j < length (entities s)"
  shows "health (entities (fold (hitByProjectile e i) js s) ! i)
           = health (entities s ! i) - 50 * real (length (filter (overlaps s i) js))"
  using assms
proof (induction js arbitrary: s)
  case Nil
  then show ?case by simp
next
  case (Cons j js)
  let ?s1 = "hitByProjectile e i j s"
  have ij: "i \<noteq> j" using Cons.prems(2) by auto
  have h1: "health (entities ?s1 ! i) = health (entities s ! i) - (if overlaps s i j then 50 else 0)"
    using Cons.prems(1) ij by (rule hitByProjectile_target)
  have l1: "i < length (entities ?s1)" using Cons.prems(1) by simp
  have n1: "i \<notin> set js" using Cons.prems(2) by simp
  have b1: "\<forall>k \<in> set js. k < length (entities ?s1)" using Cons.prems(3) by simp
  have same: "filter (overlaps ?s1 i) js = filter (overlaps s i) js"
  proof (rule filter_cong [OF refl])
    fix k assume "k \<in> set js"
    then have "k < length (entities s)" using Cons.prems(3) by simp
    then show "overlaps ?s1 i k = overlaps s i k"
      using Cons.prems(1) by (intro overlaps_body hitByProjectile_body)
  qed
  show ?case
    using Cons.IH [OF l1 n1 b1] h1 by (simp add: same)
qed

lemma hits_consume:
  assumes "j \<in> set js" and "overlaps s i j" and "i \<notin> set js"
    and "i < length (entities s)" and "\<forall>k \<in> set js. k < length (entities s)"
  shows "\<not> active (entities (fold (hitByProjectile e i) js s) ! j)"
  using assms
proof (induction js arbitrary: s)
  case Nil
  then show ?case by simp
next
  case (Cons k js)
  let ?s1 = "hitByProjectile e i k s"
  have jl: "j < length (entities s)" using Cons.prems(1,5) by auto
  have ij: "i \<noteq> j" using Cons.prems(1,3) by auto
  show ?case
  proof (cases "k = j")
    case True
    have "\<not> active (entities ?s1 ! j)"
      unfolding True using jl ij Cons.prems(2) by (rule hitByProjectile_consumes)
    moreover have "j < length (entities ?s1)" using jl by simp
    ultimately have "\<not> active (entities (fold (hitByProjectile e i) js ?s1) ! j)"
      by (intro hits_inactive_stays)
    then show ?thesis by simp
  next
    case False
    then have 1: "j \<in> set js" using Cons.prems(1) by simp
    have 2: "overlaps ?s1 i j"
      using Cons.prems(2,4) jl overlaps_body [OF hitByProjectile_body, of i s j e i k] by simp
    have 3: "i \<notin> set js" using Cons.prems(3) by simp
    have 4: "i < length (entities ?s1)" using Cons.prems(4) by simp
    have 5: "\<forall>n \<in> set js. n < length (entities ?s1)" using Cons.prems(5) by simp
    from Cons.IH [OF 1 2 3 4 5] show ?thesis by simp
  qed
qed

lemma moveEntity_self:
  assumes "i < length (entities s)"
  shows "health (entities (moveEntity e dt sp i s) ! i) = health (entities s ! i)"
    and "etype (entities (moveEntity e dt sp i s) ! i) = etype (entities s ! i)"
  using assms by (simp_all add: moveEntity_def Let_def nth_append)

lemma cullEntity_self:
  assumes "i < length (entities s)"
  shows "health (entities (cullEntity i s) ! i) = health (entities s ! i)"
    and "etype (entities (cullEntity i s) ! i) = etype (entities s ! i)"
  using assms by (simp_all add: cullEntity_def Let_def)

lemma afterMove_frame:
  "player (afterMove e dt sp i s) = player s"
  "score (afterMove e dt sp i s) = score s"
  "length (entities s) \<le> length (entities (afterMove e dt sp i s))"
  "i < length (entities s) \<Longrightarrow>
     health (entities (afterMove e dt sp i s) ! i) = health (entities s ! i)"
  "i < length (entities s) \<Longrightarrow>
     etype (entities (afterMove e dt sp i s) ! i) = etype (entities s ! i)"
  "k \<noteq> i \<Longrightarrow> k < length (entities s) \<Longrightarrow> entities (afterMove e dt sp i s) ! k = entities s ! k"
proof -
  show "player (afterMove e dt sp i s) = player s" "score (afterMove e dt sp i s) = score s"
    by (simp_all add: afterMove_def)
  show len: "length (entities s) \<le> length (entities (afterMove e dt sp i s))"
    using moveEntity_length [of s e dt sp i] by (simp add: afterMove_def)
  show "health (entities (afterMove e dt sp i s) ! i) = health (entities s ! i)"
    if "i < length (entities s)"
  proof -
    have "i < length (entities (moveEntity e dt sp i s))"
      using that moveEntity_length [of s e dt sp i] by simp
    then show ?thesis using that by (simp add: afterMove_def cullEntity_self moveEntity_self)
  qed
  show "etype (entities (afterMove e dt sp i s) ! i) = etype (entities s ! i)"
    if "i < length (entities s)"
  proof -
    have "i < length (entities (moveEntity e dt sp i s))"
      using that moveEntity_length [of s e dt sp i] by simp
    then show ?thesis using that by (simp add: afterMove_def cullEntity_self moveEntity_self)
  qed
  show "entities (afterMove e dt sp i s) ! k = entities s ! k"
    if "k \<noteq> i" "k < length (entities s)"
    using that by (simp add: afterMove_def cullEntity_other moveEntity_other)
qed

lemma activePlayerProjectiles_set:
  "j \<in> set (activePlayerProjectiles s) \<longleftrightarrow>
     j < length (entities s) \<and> etype (entities s ! j) = PROJECTILE_Player \<and> active (entities s ! j)"
  by (auto simp: activePlayerProjectiles_def)

text \<open>The collisions of an enemy that is still active after its move and overlaps the ship.\<close>

lemma collideEnemy_both:
  assumes i: "i < length (entities m)"
    and enemy: "startsWithENEMY (etype (entities m ! i))" and act: "active (entities m ! i)"
    and ship: "checkCollision (position (player m)) (radius (player m))
                 (position (entities m ! i)) (radius (entities m ! i))"
  shows "health (entities (collideEnemy e i m) ! i)
           = health (entities m ! i) - 50 * real (length (hitters m i))"
    and "\<not> active (entities (collideEnemy e i m) ! i)"
    and "health (player (collideEnemy e i m)) = health (player m) - 20"
    and "j \<in> set (hitters m i) \<Longrightarrow> \<not> active (entities (collideEnemy e i m) ! j)"
proof -
  define js where "js = activePlayerProjectiles m"
  define s1 where "s1 = fold (hitByProjectile e i) js m"
  have notin: "i \<notin> set js"
    using enemy by (intro not_in_activePlayerProjectiles [of m i, folded js_def]) auto
  have below: "\<forall>j \<in> set js. j < length (entities m)"
    by (simp add: js_def activePlayerProjectiles_set)
  have body: "map bodyOf (entities s1) = map bodyOf (entities m)"
    unfolding s1_def by (rule hits_body)
  note bi = bodyOf_fields [OF body_nth [OF body i]]
  have l1: "i < length (entities s1)" using i by (simp add: s1_def)
  have h1: "health (entities s1 ! i) = health (entities m ! i) - 50 * real (length (hitters m i))"
    unfolding s1_def hitters_def js_def [symmetric] using i notin below by (rule hits_target)
  have ship1: "checkCollision (position (player s1)) (radius (player s1))
                 (position (entities s1 ! i)) (radius (entities s1 ! i))"
    using ship by (simp add: bi(1,2)) (simp add: s1_def)
  define s2 where "s2 = modifyEntity i (\<lambda>a. a\<lparr>active := False\<rparr>) s1"
  define s3 where "s3 = s2\<lparr>player := (player s2)\<lparr>health := health (player s2) - 20\<rparr>\<rparr>"
  have p3: "position (player s3) = position (player s2)" by (simp add: s3_def)
  have ce: "collideEnemy e i m = spawnExplosion e (position (player s3)) ''#ff0000'' s3"
    unfolding p3 using enemy act ship1
    by (simp add: collideEnemy_def Let_def js_def [symmetric] s1_def [symmetric]
        s2_def [symmetric] s3_def [symmetric])
  have e3: "entities (collideEnemy e i m) = entities s2"
    by (simp add: ce s3_def)
  show "health (entities (collideEnemy e i m) ! i)
           = health (entities m ! i) - 50 * real (length (hitters m i))"
    using l1 h1 by (simp add: e3 s2_def)
  show "\<not> active (entities (collideEnemy e i m) ! i)"
    using l1 by (simp add: e3 s2_def)
  show "health (player (collideEnemy e i m)) = health (player m) - 20"
    by (simp add: ce s3_def s2_def s1_def)
  show "\<not> active (entities (collideEnemy e i m) ! j)" if "j \<in> set (hitters m i)"
  proof -
    have jin: "j \<in> set js" and ov: "overlaps m i j"
      using that by (simp_all add: hitters_def js_def)
    have ij: "j \<noteq> i" using jin notin by auto
    have "\<not> active (entities s1 ! j)"
      unfolding s1_def using jin ov notin i below by (rule hits_consume)
    then show ?thesis using ij by (simp add: e3 s2_def)
  qed
qed

section \<open>Collisions within one pass\<close>

text \<open>
  Claim C2 (a projectile and the ship both meet an enemy in one frame), as the code has
  it. The collisions of an enemy \<open>B\<close> are tested during \<open>B\<close>'s own visit, on \<open>B\<close>'s position
  after its move of this frame and on the position each player projectile has in the
  store at that moment (already moved if it precedes \<open>B\<close> in the store, not yet moved
  otherwise). When \<open>B\<close> is still active after its move, overlaps an active player projectile
  \<open>A\<close> and overlaps the ship, both effects are applied in that visit: \<open>B\<close> loses 50 health
  for every active player projectile that overlaps it, \<open>A\<close> among them, each of which is
  deactivated; the ship loses 20 health and \<open>B\<close> is deactivated, also when the hits have
  already killed it. Nothing is removed from the store during the pass.
\<close>

theorem C2_enemy_visit:
  fixes e :: env and dt sp :: real and i j :: nat and s :: state
  defines "m \<equiv> afterMove e dt sp i s"
  defines "s' \<equiv> updateEntity e dt sp i s"
  assumes i: "i < length (entities s)" and j: "j < length (entities s)"
    and B: "startsWithENEMY (etype (entities s ! i))" "active (entities s ! i)"
    and A: "etype (entities s ! j) = PROJECTILE_Player" "active (entities s ! j)"
    and inside: "active (entities m ! i)"
    and AB: "overlaps m i j"
    and PB: "checkCollision (position (player s)) (radius (player s))
               (position (entities m ! i)) (radius (entities m ! i))"
  shows "health (entities s' ! i) = health (entities s ! i) - 50 * real (length (hitters m i))
       \<and> j \<in> set (hitters m i)
       \<and> \<not> active (entities s' ! j)
       \<and> \<not> active (entities s' ! i)
       \<and> health (player s') = health (player s) - 20
       \<and> length (entities s) \<le> length (entities s')
       \<and> entities m ! j = entities s ! j"
proof -
  have ij: "j \<noteq> i" using A(1) B(1) by auto
  note mf = afterMove_frame [where e = e and dt = dt and sp = sp and i = i and s = s,
      folded m_def]
  have im: "i < length (entities m)" and jm: "j < length (entities m)"
    using i j mf(3) by simp_all
  have mj: "entities m ! j = entities s ! j" using ij j by (rule mf(6))
  have Bm: "startsWithENEMY (etype (entities m ! i))" using B(1) i by (simp add: mf(5))
  have PBm: "checkCollision (position (player m)) (radius (player m))
               (position (entities m ! i)) (radius (entities m ! i))"
    using PB by (simp add: mf(1))
  have jh: "j \<in> set (hitters m i)"
    using jm A AB by (simp add: hitters_def activePlayerProjectiles_set mj)
  define c where "c = collideEnemy e i m"
  note cb = collideEnemy_both [OF im Bm inside PBm, where e = e, folded c_def]
  have "bodyOf (entities c ! i) = bodyOf (entities m ! i)"
    unfolding c_def using collideEnemy_body im by (rule body_nth)
  then have "etype (entities c ! i) = etype (entities m ! i)" by (rule bodyOf_fields)
  then have "etype (entities c ! i) \<noteq> PROJECTILE_Enemy" using Bm by auto
  then have "collideEnemyProjectile e i c = c"
    by (simp add: collideEnemyProjectile_def Let_def)
  then have s': "s' = c"
    using B(2) by (simp add: s'_def updateEntity_def afterMove_def [symmetric] m_def [symmetric] c_def)
  have len: "length (entities s) \<le> length (entities s')"
    using mf(3) by (simp add: s' c_def)
  show ?thesis
    using cb(1,2,3) cb(4) [OF jh] jh len mj i by (simp add: s' mf(1,4))
qed

lemma skirmishSwapped_afterMove:
  "entities (afterMove exampleEnv 16 (5/2) 0 skirmishSwapped)
     = [raider\<lparr>position := \<lparr>v3x = 0, v3y = 0, v3z = 0\<rparr>\<rparr>, bolt]"
  by (simp add: afterMove_def cullEntity_def moveEntity_def modifyEntity_def Let_def
      skirmishSwapped_def initialState_def raider_def bolt_def exampleEnv_def)

theorem C2_enemy_visit_witness:
  "health (entities (updateEntity exampleEnv 16 (5/2) 0 skirmishSwapped) ! 0) = 0
   \<and> \<not> active (entities (updateEntity exampleEnv 16 (5/2) 0 skirmishSwapped) ! 1)
   \<and> \<not> active (entities (updateEntity exampleEnv 16 (5/2) 0 skirmishSwapped) ! 0)
   \<and> health (player (updateEntity exampleEnv 16 (5/2) 0 skirmishSwapped)) = 80
   \<and> length (entities (updateEntity exampleEnv 16 (5/2) 0 skirmishSwapped)) \<ge> 2"
proof -
  have es: "entities skirmishSwapped = [raider, bolt]"
    by (simp add: skirmishSwapped_def)
  have pl: "player skirmishSwapped = initialPlayer"
    by (simp add: skirmishSwapped_def initialState_def)
  note em = skirmishSwapped_afterMove
  have 1: "0 < length (entities skirmishSwapped)" "1 < length (entities skirmishSwapped)"
    by (simp_all add: es)
  have 2: "startsWithENEMY (etype (entities skirmishSwapped ! 0))" "active (entities skirmishSwapped ! 0)"
    by (simp_all add: es raider_def)
  have 3: "etype (entities skirmishSwapped ! 1) = PROJECTILE_Player" "active (entities skirmishSwapped ! 1)"
    by (simp_all add: es bolt_def)
  have 4: "active (entities (afterMove exampleEnv 16 (5/2) 0 skirmishSwapped) ! 0)"
    by (simp add: em raider_def)
  have 5: "overlaps (afterMove exampleEnv 16 (5/2) 0 skirmishSwapped) 0 1"
    by (simp add: overlaps_def em raider_def bolt_def checkCollision_def Let_def)
  have 6: "checkCollision (position (player skirmishSwapped)) (radius (player skirmishSwapped))
      (position (entities (afterMove exampleEnv 16 (5/2) 0 skirmishSwapped) ! 0))
      (radius (entities (afterMove exampleEnv 16 (5/2) 0 skirmishSwapped) ! 0))"
    by (simp add: em pl initialPlayer_def raider_def checkCollision_def Let_def)
  have 7: "hitters (afterMove exampleEnv 16 (5/2) 0 skirmishSwapped) 0 = [1]"
    by (simp add: hitters_def activePlayerProjectiles_def overlaps_def em upt_0_2
        raider_def bolt_def checkCollision_def Let_def)
  show ?thesis
    using C2_enemy_visit [OF 1 2 3 4 5 6] 
    by (simp add: 7 es pl raider_def initialPlayer_def)
qed

theorem C2_counterexample:
  "entities skirmishSwapped = rev (entities skirmish)
   \<and> player skirmishSwapped = player skirmish \<and> score skirmishSwapped = score skirmish
   \<and> overlaps skirmish 1 0
   \<and> checkCollision (position (player skirmish)) (radius (player skirmish))
        (position (entities skirmish ! 1)) (radius (entities skirmish ! 1))
   \<and> score (entityPass exampleEnv 16 (scrollSpeedOf exampleProps 16) skirmish) = 0
   \<and> health (entities (entityPass exampleEnv 16 (scrollSpeedOf exampleProps 16) skirmish) ! 1) = 50
   \<and> active (entities (entityPass exampleEnv 16 (scrollSpeedOf exampleProps 16) skirmish) ! 0)
   \<and> score (entityPass exampleEnv 16 (scrollSpeedOf exampleProps 16) skirmishSwapped) = 100
   \<and> health (entities (entityPass exampleEnv 16 (scrollSpeedOf exampleProps 16) skirmishSwapped) ! 0) = 0
   \<and> \<not> active (entities (entityPass exampleEnv 16 (scrollSpeedOf exampleProps 16) skirmishSwapped) ! 1)"
proof -
  have sp: "scrollSpeedOf exampleProps 16 = 5/2"
    by (simp add: scrollSpeedOf_def exampleProps_def BASE_SCROLL_SPEED_def)
  note defs = entityPass_def initialState_def initialPlayer_def upt_0_2
    updateEntity_def moveEntity_def cullEntity_def collideEnemy_def collideEnemyProjectile_def
    hitByProjectile_def activePlayerProjectiles_def checkCollision_def
    modifyEntity_def spawnProjectile_def exampleEnv_def bolt_def raider_def Let_def
  have a: "score (entityPass exampleEnv 16 (5/2) skirmish) = 0"
    "health (entities (entityPass exampleEnv 16 (5/2) skirmish) ! 1) = 50"
    "active (entities (entityPass exampleEnv 16 (5/2) skirmish) ! 0)"
    by (simp_all add: skirmish_def defs)
  have b: "score (entityPass exampleEnv 16 (5/2) skirmishSwapped) = 100"
    "health (entities (entityPass exampleEnv 16 (5/2) skirmishSwapped) ! 0) = 0"
    "\<not> active (entities (entityPass exampleEnv 16 (5/2) skirmishSwapped) ! 1)"
    by (simp_all add: skirmishSwapped_def defs)
  have c: "entities skirmishSwapped = rev (entities skirmish)"
    "player skirmishSwapped = player skirmish" "score skirmishSwapped = score skirmish"
    by (simp_all add: skirmish_def skirmishSwapped_def)
  have d: "overlaps skirmish 1 0"
    "checkCollision (position (player skirmish)) (radius (player skirmish))
        (position (entities skirmish ! 1)) (radius (entities skirmish ! 1))"
    by (simp_all add: overlaps_def skirmish_def initialState_def initialPlayer_def
        bolt_def raider_def checkCollision_def Let_def)
  show ?thesis using a b c d by (simp add: sp)
qed

end
